theory Spec2Isabelle
  imports Main "HOL-Library.Word"
begin

unbundle bit_operations_syntax

section \<open>The Gate of service/gate/gate.go\<close>

text \<open>
  A shallow embedding of \<^verbatim>\<open>service/gate/gate.go\<close>: the session registry of the
  Gate, the length-prefixed framing of the TCP backend, the accept loop and the
  WebSocket upgrade handler. Go's \<^verbatim>\<open>uint8\<close>, \<^verbatim>\<open>uint16\<close> and \<^verbatim>\<open>uint32\<close> are words,
  so every addition and conversion wraps as it does in Go.
\<close>

type_synonym byte = "8 word"
type_synonym u16 = "16 word"
type_synonym u32 = "32 word"

text \<open>The notification kinds: \<^verbatim>\<open>const ( OnOpen uint8 = iota; OnMessage; OnClose; OnPong )\<close>.\<close>

definition OnOpen :: byte where "OnOpen = 0"
definition OnMessage :: byte where "OnMessage = 1"
definition OnClose :: byte where "OnClose = 2"
definition OnPong :: byte where "OnPong = 3"

subsection \<open>Errors of the Go runtime\<close>

text \<open>
  The values of Go's \<^verbatim>\<open>error\<close> that the code tells apart: \<^verbatim>\<open>io.EOF\<close> (the peer closed
  the connection), \<^verbatim>\<open>io.ErrUnexpectedEOF\<close> (it closed in the middle of a read),
  an error that implements \<^verbatim>\<open>net.Error\<close> (with the answer of its \<^verbatim>\<open>Temporary()\<close>), and
  any other error. \<^verbatim>\<open>io.EOF\<close> and \<^verbatim>\<open>io.ErrUnexpectedEOF\<close> are plain \<^verbatim>\<open>errors.New\<close>
  values: they have no \<^verbatim>\<open>Temporary\<close> method and do not implement \<^verbatim>\<open>net.Error\<close>.
\<close>

datatype go_error = EOF | ErrUnexpectedEOF | NetError bool | OtherError

text \<open>The type assertion \<^verbatim>\<open>e, ok := err.(net.Error)\<close> followed by \<^verbatim>\<open>ok && !e.Temporary()\<close>.\<close>

fun net_Error_not_Temporary :: "go_error \<Rightarrow> bool" where
  "net_Error_not_Temporary (NetError temporary) = (\<not> temporary)"
| "net_Error_not_Temporary _ = False"

subsection \<open>encoding/binary, big endian\<close>

text \<open>
  \<^verbatim>\<open>binary.BigEndian.PutUint16(b, v)\<close> stores \<^verbatim>\<open>byte(v >> 8)\<close> in \<^verbatim>\<open>b[0]\<close> and \<^verbatim>\<open>byte(v)\<close>
  in \<^verbatim>\<open>b[1]\<close>; \<^verbatim>\<open>binary.BigEndian.Uint16(b)\<close> is \<^verbatim>\<open>uint16(b[1]) | uint16(b[0])<<8\<close>.
  Both are only ever called on the two-byte buffer \<^verbatim>\<open>make([]byte, 2)\<close>.
\<close>

definition PutUint16 :: "byte list \<Rightarrow> u16 \<Rightarrow> byte list" where
  "PutUint16 b v = (b[0 := ucast (drop_bit 8 v)])[1 := ucast v]"

definition Uint16 :: "byte list \<Rightarrow> u16" where
  "Uint16 b = ucast (b ! 1) OR push_bit 8 (ucast (b ! 0))"

subsection \<open>The connection and its buffered reader and writer\<close>

text \<open>
  What the buffered reader of a connection delivers, in order: a byte of the peer, or
  a failed read of the socket. When the list is used up the peer has closed the
  connection: every further read returns \<^verbatim>\<open>io.EOF\<close>.
\<close>

datatype read_ev = Data byte | Fail go_error

text \<open>
  \<^verbatim>\<open>io.ReadFull(r, buf)\<close> of Go's standard library is \<^verbatim>\<open>ReadAtLeast(r, buf, len(buf))\<close>:
  \<^verbatim>\<open>
  for n < min && err == nil { nn, err = r.Read(buf[n:]); n += nn }
  if n >= min { err = nil } else if n > 0 && err == EOF { err = ErrUnexpectedEOF }
  \<close>
  \<open>read_upto\<close> is the loop: it takes bytes until \<open>n\<close> are read or a read fails.
  A buffer of length 0 is full at once and nothing is read.
\<close>

fun read_upto :: "read_ev list \<Rightarrow> nat \<Rightarrow> byte list \<times> go_error option \<times> read_ev list" where
  "read_upto rd 0 = ([], None, rd)"
| "read_upto [] (Suc n) = ([], Some EOF, [])"
| "read_upto (Fail e # rd) (Suc n) = ([], Some e, rd)"
| "read_upto (Data b # rd) (Suc n) =
     (case read_upto rd n of (bs, err, rd') \<Rightarrow> (b # bs, err, rd'))"

text \<open>
  The result is the buffer (the bytes read overwrite its front, the rest keeps what it
  held), the error, and what is left of the stream.
\<close>

definition io_ReadFull :: "read_ev list \<Rightarrow> byte list \<Rightarrow> byte list \<times> go_error option \<times> read_ev list" where
  "io_ReadFull rd buf =
     (case read_upto rd (length buf) of (bs, err, rd') \<Rightarrow>
        (bs @ drop (length bs) buf,
         if length buf \<le> length bs then None
         else if bs \<noteq> [] \<and> err = Some EOF then Some ErrUnexpectedEOF
         else err,
         rd'))"

text \<open>
  \<^verbatim>\<open>type TcpBackend struct { session uint32; conn net.Conn; brw *bufio.ReadWriter }\<close>.
  The connection and the buffered reader and writer over it are the fields
  \<open>incoming\<close> (what \<^verbatim>\<open>t.brw\<close> reads), \<open>wbuf\<close> (the bytes \<^verbatim>\<open>t.brw.Write\<close> has taken and
  not flushed), \<open>wire\<close> (the bytes flushed to the socket, as the peer receives them),
  \<open>wfaults\<close> (the outcome of each coming operation of the writer, decided by the
  network: \<open>None\<close> or a used-up list is success) and \<open>conn_closed\<close>.
\<close>

record TcpBackend =
  session :: u32
  incoming :: "read_ev list"
  wfaults :: "go_error option list"
  wbuf :: "byte list"
  wire :: "byte list"
  conn_closed :: bool

text \<open>The next outcome the network has in store for the writer.\<close>

definition next_fault :: "TcpBackend \<Rightarrow> go_error option \<times> TcpBackend" where
  "next_fault t =
     (case wfaults t of [] \<Rightarrow> (None, t) | f # fs \<Rightarrow> (f, t\<lparr>wfaults := fs\<rparr>))"

text \<open>
  \<^verbatim>\<open>t.brw.Write(p)\<close> and \<^verbatim>\<open>t.brw.Flush()\<close> of \<^verbatim>\<open>bufio\<close>. The writer passes bytes on to the
  socket by itself when its buffer is full; what the peer has received once \<^verbatim>\<open>Flush\<close>
  returned is the same, and that is what \<open>wire\<close> holds.
\<close>

definition brw_Write :: "TcpBackend \<Rightarrow> byte list \<Rightarrow> go_error option \<times> TcpBackend" where
  "brw_Write t p =
     (case next_fault t of
        (None, t') \<Rightarrow> (None, t'\<lparr>wbuf := wbuf t' @ p\<rparr>)
      | (Some e, t') \<Rightarrow> (Some e, t'))"

definition brw_Flush :: "TcpBackend \<Rightarrow> go_error option \<times> TcpBackend" where
  "brw_Flush t =
     (case next_fault t of
        (None, t') \<Rightarrow> (None, t'\<lparr>wire := wire t' @ wbuf t', wbuf := []\<rparr>)
      | (Some e, t') \<Rightarrow> (Some e, t'))"

text \<open>
  \<^verbatim>\<open>
  func (t *TcpBackend) Write(data []byte) (err error) {
      head := make([]byte, 2)
      binary.BigEndian.PutUint16(head, uint16(len(data)))
      _, err = t.brw.Write(head)
      if err == nil {
          _, err = t.brw.Write(data)
          if err == nil { err = t.brw.Flush() }
      }
      return
  }
  \<close>
  \<^verbatim>\<open>uint16(len(data))\<close> keeps the low 16 bits of the length, as \<open>of_nat\<close> does.
\<close>

definition TcpBackend_Write :: "TcpBackend \<Rightarrow> byte list \<Rightarrow> go_error option \<times> TcpBackend" where
  "TcpBackend_Write t data =
     (let head = PutUint16 (replicate 2 0) (of_nat (length data)) in
      case brw_Write t head of
        (None, t1) \<Rightarrow>
          (case brw_Write t1 data of
             (None, t2) \<Rightarrow> brw_Flush t2
           | (Some err, t2) \<Rightarrow> (Some err, t2))
      | (Some err, t1) \<Rightarrow> (Some err, t1))"

text \<open>
  \<^verbatim>\<open>
  func (t *TcpBackend) Close() {
      putBufioReader(t.brw.Reader); putBufioWriter(t.brw.Writer); t.conn.Close()
  }
  \<close>
  \<^verbatim>\<open>putBufioWriter\<close> resets the writer (\<^verbatim>\<open>w.Reset(nil)\<close>), which drops the bytes it had
  not flushed. The two \<^verbatim>\<open>sync.Pool\<close>s the reader and writer go back to are not part of
  the model.
\<close>

definition TcpBackend_Close :: "TcpBackend \<Rightarrow> TcpBackend" where
  "TcpBackend_Close t = t\<lparr>wbuf := [], conn_closed := True\<rparr>"

subsection \<open>The WebSocket connection object\<close>

text \<open>
  Modelled from the spec: the type \<^verbatim>\<open>Websocket\<close> and its \<^verbatim>\<open>NewWebsocket\<close>, \<^verbatim>\<open>SendText\<close>,
  \<^verbatim>\<open>Close\<close> and \<^verbatim>\<open>Start\<close> belong to package \<^verbatim>\<open>gate\<close> and are not in gate.go. The spec
  (4.4) gives the object as opaque, with \<^verbatim>\<open>start()\<close>, \<^verbatim>\<open>sendText(bytes) -> error\<close> and
  \<^verbatim>\<open>close(code, reason)\<close>. The record keeps the session it was made for, the text
  frames sent, the close calls received, whether its loop was started, and the
  outcome the network has in store for each coming \<^verbatim>\<open>sendText\<close>.
\<close>

record Websocket =
  ws_session :: u32
  sent :: "byte list list"
  send_faults :: "go_error option list"
  close_calls :: "(u16 \<times> byte list) list"
  started :: bool

text \<open>Modelled from the spec: \<^verbatim>\<open>sendText(bytes) -> error\<close> (4.4), missing from gate.go.\<close>

definition SendText :: "Websocket \<Rightarrow> byte list \<Rightarrow> go_error option \<times> Websocket" where
  "SendText ws data =
     (case send_faults ws of
        [] \<Rightarrow> (None, ws\<lparr>sent := sent ws @ [data]\<rparr>)
      | None # fs \<Rightarrow> (None, ws\<lparr>sent := sent ws @ [data], send_faults := fs\<rparr>)
      | Some e # fs \<Rightarrow> (Some e, ws\<lparr>send_faults := fs\<rparr>))"

text \<open>Modelled from the spec: \<^verbatim>\<open>close(code, reason)\<close> (4.4), missing from gate.go.\<close>

definition Websocket_Close :: "Websocket \<Rightarrow> u16 \<Rightarrow> byte list \<Rightarrow> Websocket" where
  "Websocket_Close ws code reason = ws\<lparr>close_calls := close_calls ws @ [(code, reason)]\<rparr>"

text \<open>Modelled from the spec: \<^verbatim>\<open>start()\<close> (4.4), missing from gate.go.\<close>

definition Websocket_Start :: "Websocket \<Rightarrow> Websocket" where
  "Websocket_Start ws = ws\<lparr>started := True\<rparr>"

text \<open>
  An upgrade request: whether its handshake fails, and with which error, is the
  client's and the network's doing, and so are the faults of the later sends.
\<close>

record Request =
  handshake :: "go_error option"
  req_send_faults :: "go_error option list"

text \<open>
  Modelled from the spec: \<^verbatim>\<open>NewWebsocket(w, r, opt, session, gate)\<close>, missing from
  gate.go, attempts the upgrade handshake (4.5); when it fails there is no
  connection object and no event.
\<close>

definition NewWebsocket :: "Request \<Rightarrow> u32 \<Rightarrow> go_error + Websocket" where
  "NewWebsocket r sid =
     (case handshake r of
        Some e \<Rightarrow> Inl e
      | None \<Rightarrow> Inr \<lparr>ws_session = sid, sent = [], send_faults = req_send_faults r,
                     close_calls = [], started = False\<rparr>)"

text \<open>
  \<^verbatim>\<open>
  func (w *WebsocketBackend) Close() { w.Websocket.Close(0, []byte("")) }
  func (w *WebsocketBackend) Write(data []byte) error { return w.SendText(data) }
  func newWebsocket(w, r, opt, session, gate) (*WebsocketBackend, error) {
      ws, err := NewWebsocket(w, r, opt, session, gate)
      if err != nil { return nil, err }
      return &WebsocketBackend{ws}, nil
  }
  \<close>
\<close>

definition WebsocketBackend_Close :: "Websocket \<Rightarrow> Websocket" where
  "WebsocketBackend_Close ws = Websocket_Close ws 0 []"

definition WebsocketBackend_Write :: "Websocket \<Rightarrow> byte list \<Rightarrow> go_error option \<times> Websocket" where
  "WebsocketBackend_Write ws data = SendText ws data"

definition newWebsocket :: "Request \<Rightarrow> u32 \<Rightarrow> go_error + Websocket" where
  "newWebsocket r sid =
     (case NewWebsocket r sid of Inl err \<Rightarrow> Inl err | Inr ws \<Rightarrow> Inr ws)"

subsection \<open>The Gate and the objects it points to\<close>

text \<open>
  \<^verbatim>\<open>type Backend interface { Write(data []byte) error; Close() }\<close>. A value of the
  interface is a pointer to a \<^verbatim>\<open>TcpBackend\<close> or to a \<^verbatim>\<open>WebsocketBackend\<close>: the tag is
  the dynamic type and the number is the address of the object.
\<close>

datatype Backend = TcpPtr nat | WsPtr nat

text \<open>
  \<^verbatim>\<open>type Conf struct { address string; maxclient uint32; path string }\<close>, with
  \<^verbatim>\<open>maxclient\<close> 0 for no limit and an empty \<^verbatim>\<open>path\<close> for raw TCP.
\<close>

record Conf =
  address :: string
  maxclient :: u32
  path :: string

definition NewConf :: "string \<Rightarrow> u32 \<Rightarrow> string \<Rightarrow> Conf" where
  "NewConf a m p = \<lparr>address = a, maxclient = m, path = p\<rparr>"

text \<open>
  \<^verbatim>\<open>
  type Gate struct {
      rwmutex *sync.RWMutex; Source cham.Address; service *cham.Service
      session uint32; clinetnum uint32; maxclient uint32
      sessions map[uint32]Backend
  }
  \<close>
  \<open>Source\<close> and \<open>service\<close> only name the receiver of the notifications and are left
  out; a call of \<^verbatim>\<open>g.service.Notify\<close> and each operation on \<open>rwmutex\<close> is recorded
  in the trace of the world below.
\<close>

record Gate =
  session :: u32
  clinetnum :: u32
  maxclient :: u32
  sessions :: "u32 \<rightharpoonup> Backend"

text \<open>
  What the Gate does to the outside, in the order it does it: the operations on
  \<^verbatim>\<open>g.rwmutex\<close>, \<^verbatim>\<open>g.service.Notify(g.Source, cham.PTYPE_CLIENT, session, kind, data)\<close>,
  a call of \<^verbatim>\<open>Close()\<close> on a backend, \<^verbatim>\<open>conn.Close()\<close> on a connection that was
  refused, \<^verbatim>\<open>go backend.serve(g)\<close> and \<^verbatim>\<open>ws.Start()\<close>.
\<close>

datatype effect =
    Lock | Unlock | RLock | RUnlock
  | Notify u32 byte "byte list"
  | CloseCall Backend
  | RefusedConnClose
  | GoServe nat
  | StartCall nat

text \<open>
  The world: the Gate, the \<^verbatim>\<open>TcpBackend\<close> and \<^verbatim>\<open>Websocket\<close> objects by address, the
  next free address, and the trace.
\<close>

record world =
  gate :: Gate
  tcp :: "nat \<Rightarrow> TcpBackend"
  ws :: "nat \<Rightarrow> Websocket"
  nalloc :: nat
  trace :: "effect list"

definition emit :: "effect \<Rightarrow> world \<Rightarrow> world" where
  "emit e w = w\<lparr>trace := trace w @ [e]\<rparr>"

text \<open>The two methods of the interface, dispatched on the dynamic type.\<close>

fun Backend_Write :: "Backend \<Rightarrow> byte list \<Rightarrow> world \<Rightarrow> go_error option \<times> world" where
  "Backend_Write (TcpPtr p) data w =
     (case TcpBackend_Write (tcp w p) data of (err, t') \<Rightarrow> (err, w\<lparr>tcp := (tcp w)(p := t')\<rparr>))"
| "Backend_Write (WsPtr p) data w =
     (case WebsocketBackend_Write (ws w p) data of (err, s') \<Rightarrow> (err, w\<lparr>ws := (ws w)(p := s')\<rparr>))"

fun Backend_Close :: "Backend \<Rightarrow> world \<Rightarrow> world" where
  "Backend_Close (TcpPtr p) w =
     (emit (CloseCall (TcpPtr p)) w)\<lparr>tcp := (tcp w)(p := TcpBackend_Close (tcp w p))\<rparr>"
| "Backend_Close (WsPtr p) w =
     (emit (CloseCall (WsPtr p)) w)\<lparr>ws := (ws w)(p := WebsocketBackend_Close (ws w p))\<rparr>"

text \<open>
  \<^verbatim>\<open>
  func New(source cham.Address, service *cham.Service) *Gate {
      gate := new(Gate); ...; gate.clinetnum = 0; gate.session = 0
      gate.sessions = make(map[uint32]Backend); return gate
  }
  \<close>
  \<^verbatim>\<open>maxclient\<close> is the zero value of \<^verbatim>\<open>new(Gate)\<close> until \<^verbatim>\<open>open\<close> sets it.
\<close>

definition New :: Gate where
  "New = \<lparr>session = 0, clinetnum = 0, maxclient = 0, sessions = Map.empty\<rparr>"

text \<open>\<^verbatim>\<open>func (g *Gate) nextSession() uint32 { return atomic.AddUint32(&g.session, 1) }\<close>\<close>

definition nextSession :: "Gate \<Rightarrow> u32 \<times> Gate" where
  "nextSession g = (session g + 1, g\<lparr>session := session g + 1\<rparr>)"

text \<open>
  \<^verbatim>\<open>
  func (g *Gate) addBackend(session uint32, b Backend) {
      g.rwmutex.Lock(); g.sessions[session] = b; g.rwmutex.Unlock()
  }
  \<close>
\<close>

definition addBackend :: "u32 \<Rightarrow> Backend \<Rightarrow> world \<Rightarrow> world" where
  "addBackend s b w =
     (let w1 = emit Lock w;
          w2 = w1\<lparr>gate := (gate w1)\<lparr>sessions := (sessions (gate w1))(s \<mapsto> b)\<rparr>\<rparr>
      in emit Unlock w2)"

text \<open>
  \<^verbatim>\<open>
  func (g *Gate) kick(session uint32) {
      var b Backend; var ok bool
      g.rwmutex.Lock()
      if b, ok = g.sessions[session]; ok {
          delete(g.sessions, session)
          g.clinetnum--
      }
      g.rwmutex.Unlock()
      if ok { b.Close() }
  }
  \<close>
\<close>

definition kick :: "u32 \<Rightarrow> world \<Rightarrow> world" where
  "kick s w =
     (let w1 = emit Lock w in
      case sessions (gate w1) s of
        Some b \<Rightarrow>
          (let w2 = w1\<lparr>gate := (gate w1)\<lparr>sessions := (sessions (gate w1))(s := None),
                                         clinetnum := clinetnum (gate w1) - 1\<rparr>\<rparr>;
               w3 = emit Unlock w2
           in Backend_Close b w3)
      | None \<Rightarrow> emit Unlock w1)"

text \<open>
  \<^verbatim>\<open>
  func (g *Gate) Write(session uint32, data []byte) (err error) {
      g.rwmutex.RLock(); b, ok := g.sessions[session]; g.rwmutex.RUnlock()
      if ok { err = b.Write(data) }
      return
  }
  \<close>
\<close>

definition Gate_Write :: "u32 \<Rightarrow> byte list \<Rightarrow> world \<Rightarrow> go_error option \<times> world" where
  "Gate_Write s data w =
     (let w1 = emit RLock w;
          found = sessions (gate w1) s;
          w2 = emit RUnlock w1
      in case found of
           Some b \<Rightarrow> Backend_Write b data w2
         | None \<Rightarrow> (None, w2))"

subsection \<open>The read loop of a TCP backend\<close>

text \<open>
  \<^verbatim>\<open>
  func (t *TcpBackend) readFull(buf []byte) error {
      if _, err := io.ReadFull(t.brw, buf); err != nil {
          if e, ok := err.(net.Error); ok && !e.Temporary() { return err }
      }
      return nil
  }
  \<close>
  The buffer is filled in place: the model returns it beside the error.
\<close>

definition readFull :: "nat \<Rightarrow> byte list \<Rightarrow> world \<Rightarrow> go_error option \<times> byte list \<times> world" where
  "readFull t buf w =
     (case io_ReadFull (incoming (tcp w t)) buf of (buf', err, rd') \<Rightarrow>
        (let w' = w\<lparr>tcp := (tcp w)(t := (tcp w t)\<lparr>incoming := rd'\<rparr>)\<rparr> in
         case err of
           Some e \<Rightarrow> if net_Error_not_Temporary e then (Some e, buf', w') else (None, buf', w')
         | None \<Rightarrow> (None, buf', w')))"

text \<open>
  \<^verbatim>\<open>
  func (t *TcpBackend) serve(g *Gate) {
      head := make([]byte, 2)
      for {
          if err := t.readFull(head); err != nil { g.kick(t.session); return }
          length := binary.BigEndian.Uint16(head)
          data := make([]byte, length, length)
          if err := t.readFull(data); err != nil { g.kick(t.session); return }
          g.service.Notify(g.Source, cham.PTYPE_CLIENT, t.session, OnMessage, data)
      }
  }
  \<close>
  The loop has no exit but the two returns, so it runs on fuel: \<open>Running\<close> is the
  loop still going round when the fuel is used up, with the \<^verbatim>\<open>head\<close> buffer it holds
  (allocated once, before the loop); \<open>Returned\<close> is the function having returned.
\<close>

datatype serve_result = Returned world | Running "byte list" world

fun serve_loop :: "nat \<Rightarrow> nat \<Rightarrow> byte list \<Rightarrow> world \<Rightarrow> serve_result" where
  "serve_loop 0 t head w = Running head w"
| "serve_loop (Suc n) t head w =
     (case readFull t head w of
        (Some err, head1, w1) \<Rightarrow> Returned (kick (TcpBackend.session (tcp w1 t)) w1)
      | (None, head1, w1) \<Rightarrow>
          (let len = Uint16 head1;
               data = replicate (unat len) 0
           in case readFull t data w1 of
                (Some err, data1, w2) \<Rightarrow> Returned (kick (TcpBackend.session (tcp w2 t)) w2)
              | (None, data1, w2) \<Rightarrow>
                  serve_loop n t head1
                    (emit (Notify (TcpBackend.session (tcp w2 t)) OnMessage data1) w2)))"

definition serve :: "nat \<Rightarrow> nat \<Rightarrow> world \<Rightarrow> serve_result" where
  "serve n t w = serve_loop n t (replicate 2 0) w"

subsection \<open>Listening: the accept loop and the upgrade handler\<close>

text \<open>
  A connection as \<^verbatim>\<open>listen.Accept()\<close> hands it over: what the peer will send and what
  the network has in store for the writes.
\<close>

record Conn =
  conn_incoming :: "read_ev list"
  conn_wfaults :: "go_error option list"

text \<open>
  \<^verbatim>\<open>
  func newTcpBackend(session uint32, conn net.Conn) *TcpBackend {
      br := newBufioReader(conn); bw := newBufioWriter(conn)
      return &TcpBackend{session, conn, bufio.NewReadWriter(br, bw)}
  }
  \<close>
  \<open>alloc_tcp\<close> and \<open>alloc_ws\<close> are the \<^verbatim>\<open>&T{...}\<close>: a new object at the next free address.
\<close>

definition newTcpBackend :: "u32 \<Rightarrow> Conn \<Rightarrow> TcpBackend" where
  "newTcpBackend sid c =
     \<lparr>TcpBackend.session = sid, incoming = conn_incoming c, wfaults = conn_wfaults c,
      wbuf = [], wire = [], conn_closed = False\<rparr>"

definition alloc_tcp :: "TcpBackend \<Rightarrow> world \<Rightarrow> nat \<times> world" where
  "alloc_tcp t w = (nalloc w, w\<lparr>tcp := (tcp w)(nalloc w := t), nalloc := nalloc w + 1\<rparr>)"

definition alloc_ws :: "Websocket \<Rightarrow> world \<Rightarrow> nat \<times> world" where
  "alloc_ws s w = (nalloc w, w\<lparr>ws := (ws w)(nalloc w := s), nalloc := nalloc w + 1\<rparr>)"

text \<open>
  One round of the accept loop of \<^verbatim>\<open>open\<close>, given what \<^verbatim>\<open>listen.Accept()\<close> returned.
  \<open>mc\<close> is the local \<^verbatim>\<open>maxclient := conf.maxclient\<close> the goroutine has captured.
  \<^verbatim>\<open>
  for {
      conn, err := listen.Accept()
      if err != nil { continue }
      if maxclient != 0 && g.clinetnum >= maxclient { conn.Close(); break }
      g.clinetnum++
      session := g.nextSession()
      backend := newTcpBackend(session, conn)
      g.sessions[session] = backend // not need mutex, so not addBackend
      go backend.serve(g)
  }
  \<close>
\<close>

datatype accept_result = AcceptError go_error | Accepted Conn

datatype loop_ctl = Continue | Break

definition accept_round :: "u32 \<Rightarrow> accept_result \<Rightarrow> world \<Rightarrow> loop_ctl \<times> world" where
  "accept_round mc r w =
     (case r of
        AcceptError err \<Rightarrow> (Continue, w)
      | Accepted conn \<Rightarrow>
          if mc \<noteq> 0 \<and> mc \<le> clinetnum (gate w) then (Break, emit RefusedConnClose w)
          else
            (let w1 = w\<lparr>gate := (gate w)\<lparr>clinetnum := clinetnum (gate w) + 1\<rparr>\<rparr> in
             case nextSession (gate w1) of (sid, g2) \<Rightarrow>
               (case alloc_tcp (newTcpBackend sid conn) (w1\<lparr>gate := g2\<rparr>) of (backend, w3) \<Rightarrow>
                  (let w4 = w3\<lparr>gate := (gate w3)\<lparr>sessions :=
                                (sessions (gate w3))(sid \<mapsto> TcpPtr backend)\<rparr>\<rparr>
                   in (Continue, emit (GoServe backend) w4)))))"

text \<open>
  The handler \<^verbatim>\<open>open\<close> registers at \<^verbatim>\<open>conf.path\<close>, on one upgrade request:
  \<^verbatim>\<open>
  if maxclient != 0 && g.clinetnum >= maxclient { return }
  session := g.nextSession()
  ws, err := newWebsocket(w, r, &opt, session, g)
  if err != nil { return }
  g.addBackend(session, ws)
  g.clinetnum++
  ws.Start()
  \<close>
\<close>

definition upgrade_handler :: "u32 \<Rightarrow> Request \<Rightarrow> world \<Rightarrow> world" where
  "upgrade_handler mc r w =
     (if mc \<noteq> 0 \<and> mc \<le> clinetnum (gate w) then w
      else
        case nextSession (gate w) of (sid, g1) \<Rightarrow>
          (let w1 = w\<lparr>gate := g1\<rparr> in
           case newWebsocket r sid of
             Inl err \<Rightarrow> w1
           | Inr s \<Rightarrow>
               (case alloc_ws s w1 of (p, w2) \<Rightarrow>
                  (let w3 = addBackend sid (WsPtr p) w2;
                       w4 = w3\<lparr>gate := (gate w3)\<lparr>clinetnum := clinetnum (gate w3) + 1\<rparr>\<rparr>
                   in (emit (StartCall p) w4)\<lparr>ws := (ws w4)(p := Websocket_Start (ws w4 p))\<rparr>))))"

text \<open>
  What \<^verbatim>\<open>open\<close> leaves behind: the goroutine of the accept loop with its captured
  \<^verbatim>\<open>maxclient\<close>, or that goroutine ended (the loop left through \<^verbatim>\<open>break\<close> and the
  deferred \<^verbatim>\<open>listen.Close()\<close> ran), or the HTTP handler with its captured \<^verbatim>\<open>maxclient\<close>.
\<close>

datatype listening = TcpAccepting u32 | TcpStopped | HttpHandling u32

text \<open>
  \<^verbatim>\<open>func (g *Gate) open(conf *Conf)\<close>: sets \<^verbatim>\<open>g.maxclient\<close>, then listens on TCP when
  \<^verbatim>\<open>conf.path == ""\<close> (a failing \<^verbatim>\<open>net.Listen\<close> panics: \<open>None\<close>), or else registers
  the handler.
\<close>

definition open_gate :: "Conf \<Rightarrow> go_error option \<Rightarrow> world \<Rightarrow> (listening \<times> world) option" where
  "open_gate conf listen_err w =
     (let mc = Conf.maxclient conf;
          w1 = w\<lparr>gate := (gate w)\<lparr>maxclient := mc\<rparr>\<rparr>
      in if path conf = [] then
           (case listen_err of Some err \<Rightarrow> None | None \<Rightarrow> Some (TcpAccepting mc, w1))
         else Some (HttpHandling mc, w1))"

text \<open>
  What happens to a Gate that is open, one event after the other: the next result of
  \<^verbatim>\<open>listen.Accept()\<close>, an upgrade request, a call of \<^verbatim>\<open>g.kick\<close> (by the \<^verbatim>\<open>KICK\<close> command
  of \<^verbatim>\<open>Start\<close> or by a read loop), a call of \<^verbatim>\<open>g.Write\<close> (by \<^verbatim>\<open>ResponseStart\<close>). Once the
  accept loop has ended nothing calls \<^verbatim>\<open>Accept\<close>: a connection that arrives is not
  taken.
\<close>

datatype event =
    Arrives accept_result
  | Upgrade Request
  | KickCall u32
  | WriteCall u32 "byte list"

fun step :: "listening \<times> world \<Rightarrow> event \<Rightarrow> listening \<times> world" where
  "step (TcpAccepting mc, w) (Arrives r) =
     (case accept_round mc r w of
        (Continue, w') \<Rightarrow> (TcpAccepting mc, w')
      | (Break, w') \<Rightarrow> (TcpStopped, w'))"
| "step (l, w) (Arrives r) = (l, w)"
| "step (HttpHandling mc, w) (Upgrade r) = (HttpHandling mc, upgrade_handler mc r w)"
| "step (l, w) (Upgrade r) = (l, w)"
| "step (l, w) (KickCall s) = (l, kick s w)"
| "step (l, w) (WriteCall s data) = (l, snd (Gate_Write s data w))"

definition run :: "listening \<times> world \<Rightarrow> event list \<Rightarrow> listening \<times> world" where
  "run = foldl step"

subsection \<open>Notions the properties are stated with\<close>

text \<open>The network lets the next \<open>n\<close> operations of the writer of \<open>t\<close> succeed.\<close>

definition writes_succeed :: "nat \<Rightarrow> TcpBackend \<Rightarrow> bool" where
  "writes_succeed n t = list_all (\<lambda>f. f = None) (take n (wfaults t))"

text \<open>The ids that \<open>n\<close> calls of \<^verbatim>\<open>nextSession\<close> in a row return.\<close>

fun nextSession_calls :: "nat \<Rightarrow> Gate \<Rightarrow> u32 list" where
  "nextSession_calls 0 g = []"
| "nextSession_calls (Suc n) g =
     (case nextSession g of (sid, g') \<Rightarrow> sid # nextSession_calls n g')"

text \<open>A backend as \<^verbatim>\<open>newTcpBackend\<close> makes it, for session 1, on a healthy connection.\<close>

definition fresh_backend :: TcpBackend where
  "fresh_backend = newTcpBackend 1 \<lparr>conn_incoming = [], conn_wfaults = []\<rparr>"

text \<open>The stream a read of the backend at address \<open>p\<close> has left behind.\<close>

definition with_incoming :: "nat \<Rightarrow> read_ev list \<Rightarrow> world \<Rightarrow> world" where
  "with_incoming p rd w = w\<lparr>tcp := (tcp w)(p := (tcp w p)\<lparr>incoming := rd\<rparr>)\<rparr>"

text \<open>
  A Gate that \<^verbatim>\<open>New\<close> has just made, with no object allocated, and the same Gate after
  its accept loop (with no limit on the clients) has taken a connection.
\<close>

definition world0 :: world where
  "world0 = \<lparr>gate = New,
             tcp = (\<lambda>_. newTcpBackend 0 \<lparr>conn_incoming = [], conn_wfaults = []\<rparr>),
             ws = (\<lambda>_. \<lparr>ws_session = 0, sent = [], send_faults = [], close_calls = [],
                         started = False\<rparr>),
             nalloc = 0, trace = []\<rparr>"

definition admit :: "Conn \<Rightarrow> world \<Rightarrow> world" where
  "admit c w = snd (accept_round 0 (Accepted c) w)"

text \<open>
  Two clients: the first sends nothing and every write to it fails with a network
  error that is not temporary; the second sends the frame \<^verbatim>\<open>0x00 0x05 h e l l o\<close> and
  then hangs up.
\<close>

definition hello :: "byte list" where
  "hello = [104, 101, 108, 108, 111]"

definition conn_a :: Conn where
  "conn_a = \<lparr>conn_incoming = [], conn_wfaults = [Some (NetError False)]\<rparr>"

definition conn_b :: Conn where
  "conn_b = \<lparr>conn_incoming = map Data ([0, 5] @ hello), conn_wfaults = []\<rparr>"

definition two_sessions :: world where
  "two_sessions = admit conn_b (admit conn_a world0)"

text \<open>
  A Gate opened on raw TCP, and one opened for WebSocket at \<^verbatim>\<open>/ws\<close>, both with room for
  one client, each after its first client has come in; an upgrade request whose
  handshake succeeds and one whose handshake fails.
\<close>

definition tcp_conf :: Conf where
  "tcp_conf = NewConf ''127.0.0.1:8000'' 1 []"

definition ws_conf :: Conf where
  "ws_conf = NewConf ''127.0.0.1:8000'' 1 ''/ws''"

definition one_client :: world where
  "one_client =
     (case open_gate tcp_conf None world0 of
        Some lw \<Rightarrow> snd (step lw (Arrives (Accepted conn_b)))
      | None \<Rightarrow> world0)"

definition good_request :: Request where
  "good_request = \<lparr>handshake = None, req_send_faults = []\<rparr>"

definition bad_request :: Request where
  "bad_request = \<lparr>handshake = Some OtherError, req_send_faults = []\<rparr>"

definition one_websocket :: world where
  "one_websocket =
     (case open_gate ws_conf None world0 of
        Some lw \<Rightarrow> snd (step lw (Upgrade good_request))
      | None \<Rightarrow> world0)"

text \<open>
  Since the world \<open>w\<close> the Gate has taken no connection: the accept loop has ended, no
  session id was handed out, no backend was made and the registry has no new key.
\<close>

definition admits_nothing :: "world \<Rightarrow> listening \<times> world \<Rightarrow> bool" where
  "admits_nothing w lw =
     (fst lw = TcpStopped \<and>
      session (gate (snd lw)) = session (gate w) \<and>
      nalloc (snd lw) = nalloc w \<and>
      dom (sessions (gate (snd lw))) \<subseteq> dom (sessions (gate w)))"

subsection \<open>Two callers of Write on one backend\<close>

text \<open>
  \<^verbatim>\<open>TcpBackend.Write\<close> is three calls on \<^verbatim>\<open>t.brw\<close>, one after the other, and stops at the
  first that fails. Neither \<^verbatim>\<open>TcpBackend\<close> nor \<^verbatim>\<open>Write\<close> has a lock, and \<^verbatim>\<open>Gate.Write\<close>
  has released the read lock of the registry before it calls \<^verbatim>\<open>b.Write\<close>. So when
  two goroutines are in \<^verbatim>\<open>Write\<close> on the same backend, each of the three calls of the
  one may come before or after each call of the other. \<open>run_ops\<close> is one caller alone;
  \<open>interleave\<close> is two callers under a schedule that says who moves next, each call on
  \<^verbatim>\<open>t.brw\<close> taken as one step (the calls themselves are not safe to run at the same
  time either; the model does not need that to tell the orders apart).
\<close>

datatype brw_op = OpWrite "byte list" | OpFlush

fun brw_do :: "brw_op \<Rightarrow> TcpBackend \<Rightarrow> go_error option \<times> TcpBackend" where
  "brw_do (OpWrite p) t = brw_Write t p"
| "brw_do OpFlush t = brw_Flush t"

definition Write_ops :: "byte list \<Rightarrow> brw_op list" where
  "Write_ops data =
     [OpWrite (PutUint16 (replicate 2 0) (of_nat (length data))), OpWrite data, OpFlush]"

fun run_ops :: "brw_op list \<Rightarrow> TcpBackend \<Rightarrow> go_error option \<times> TcpBackend" where
  "run_ops [] t = (None, t)"
| "run_ops (x # ops) t =
     (case brw_do x t of (None, t') \<Rightarrow> run_ops ops t' | (Some e, t') \<Rightarrow> (Some e, t'))"

datatype caller = First | Second

fun interleave :: "caller list \<Rightarrow> brw_op list \<Rightarrow> brw_op list \<Rightarrow> TcpBackend \<Rightarrow> TcpBackend" where
  "interleave [] a b t = t"
| "interleave (First # sch) (x # a) b t =
     (case brw_do x t of
        (None, t') \<Rightarrow> interleave sch a b t'
      | (Some e, t') \<Rightarrow> interleave sch [] b t')"
| "interleave (First # sch) [] b t = interleave sch [] b t"
| "interleave (Second # sch) a (y # b) t =
     (case brw_do y t of
        (None, t') \<Rightarrow> interleave sch a b t'
      | (Some e, t') \<Rightarrow> interleave sch a [] t')"
| "interleave (Second # sch) a [] t = interleave sch a [] t"

section \<open>Properties\<close>

subsection \<open>Byte order\<close>

lemma ucast_lo: "(ucast (word_of_nat n :: u16) :: byte) = word_of_nat n"
  by (rule bit_word_eqI) (auto simp add: bit_simps)

lemma ucast_hi: "(ucast (drop_bit 8 (word_of_nat n :: u16)) :: byte) = word_of_nat (n div 256)"
proof -
  have "n div 256 = drop_bit 8 n" by (simp add: drop_bit_eq_div)
  then show ?thesis
    by (intro bit_word_eqI) (auto simp add: bit_simps)
qed

lemma PutUint16_of_nat:
  "PutUint16 [0, 0] (of_nat n) = [of_nat (n div 256), of_nat n]"
  by (simp add: PutUint16_def ucast_lo ucast_hi)

lemma Uint16_PutUint16: "Uint16 (PutUint16 [a, b] v) = v"
  apply (simp add: PutUint16_def Uint16_def)
  apply (rule bit_word_eqI)
  apply (auto simp add: bit_simps)
  done

lemma unat_Uint16_of_nat: "unat (Uint16 (PutUint16 [0, 0] (of_nat n))) = n mod 65536"
  by (simp add: Uint16_PutUint16 unat_of_nat)

subsection \<open>Writing a frame\<close>

lemma next_fault_ok:
  "writes_succeed n t \<Longrightarrow> 0 < n \<Longrightarrow> next_fault t = (None, t\<lparr>wfaults := tl (wfaults t)\<rparr>)"
  by (cases "wfaults t"; cases n) (auto simp: next_fault_def writes_succeed_def)

lemma writes_succeed_tl:
  "writes_succeed n t \<Longrightarrow> writes_succeed (n - 1) (t\<lparr>wfaults := tl (wfaults t), wbuf := b\<rparr>)"
  by (cases "wfaults t"; cases n) (auto simp: writes_succeed_def)

lemma brw_Write_ok:
  "writes_succeed n t \<Longrightarrow> 0 < n \<Longrightarrow>
     brw_Write t p = (None, t\<lparr>wfaults := tl (wfaults t), wbuf := wbuf t @ p\<rparr>)"
  by (simp add: brw_Write_def next_fault_ok)

lemma brw_Flush_ok:
  "writes_succeed n t \<Longrightarrow> 0 < n \<Longrightarrow>
     brw_Flush t = (None, t\<lparr>wfaults := tl (wfaults t), wire := wire t @ wbuf t, wbuf := []\<rparr>)"
  by (simp add: brw_Flush_def next_fault_ok)

text \<open>
  When the network lets its three operations succeed, \<^verbatim>\<open>Write\<close> returns \<^verbatim>\<open>nil\<close> and the
  peer receives what the writer still held, the two bytes of the header and the data.
\<close>

lemma TcpBackend_Write_ok:
  assumes "writes_succeed 3 t"
  shows "TcpBackend_Write t data =
    (None, t\<lparr>wfaults := drop 3 (wfaults t),
             wire := wire t @ wbuf t @ PutUint16 [0, 0] (of_nat (length data)) @ data,
             wbuf := []\<rparr>)"
proof -
  let ?h = "PutUint16 [0, 0] (of_nat (length data))"
  let ?t1 = "t\<lparr>wfaults := tl (wfaults t), wbuf := wbuf t @ ?h\<rparr>"
  have w1: "brw_Write t ?h = (None, ?t1)" using assms by (simp add: brw_Write_ok)
  have s2: "writes_succeed 2 ?t1" using writes_succeed_tl[OF assms] by simp
  let ?t2 = "?t1\<lparr>wfaults := tl (wfaults ?t1), wbuf := wbuf ?t1 @ data\<rparr>"
  have w2: "brw_Write ?t1 data = (None, ?t2)" using s2 by (simp add: brw_Write_ok)
  have s1: "writes_succeed 1 ?t2" using writes_succeed_tl[OF s2] by simp
  have w3: "brw_Flush ?t2 =
      (None, ?t2\<lparr>wfaults := tl (wfaults ?t2), wire := wire ?t2 @ wbuf ?t2, wbuf := []\<rparr>)"
    using s1 by (simp add: brw_Flush_ok)
  have d: "drop 3 (wfaults t) = tl (tl (tl (wfaults t)))"
    by (simp add: numeral_3_eq_3 drop_Suc drop_tl tl_drop)
  show ?thesis
    unfolding TcpBackend_Write_def Let_def
    using w1 w2 w3 by (simp add: numeral_2_eq_2 d)
qed

text \<open>
  C10. For a payload longer than 65535 bytes \<^verbatim>\<open>TcpBackend.Write\<close> does not reject and,
  the network permitting, returns no error: the peer receives a two-byte header that
  holds the length modulo 65536, which is not the length, and then the whole payload.
\<close>

theorem TcpBackend_Write_oversize:
  assumes "65535 < length data" and "writes_succeed 3 t"
  shows "fst (TcpBackend_Write t data) = None \<and>
         wire (snd (TcpBackend_Write t data)) =
           wire t @ wbuf t @ [of_nat (length data div 256), of_nat (length data)] @ data \<and>
         unat (Uint16 [of_nat (length data div 256), of_nat (length data)]) =
           length data mod 65536 \<and>
         length data mod 65536 \<noteq> length data"
proof -
  have "unat (Uint16 (PutUint16 [0, 0] (of_nat (length data)))) = length data mod 65536"
    by (rule unat_Uint16_of_nat)
  moreover have "length data mod 65536 \<noteq> length data"
    using assms(1) by (simp add: mod_eq_self_iff_div_eq_0)
  ultimately show ?thesis
    using assms(2) by (simp add: TcpBackend_Write_ok PutUint16_of_nat)
qed

theorem TcpBackend_Write_oversize_witness:
  "65535 < length (replicate 65536 (0::byte)) \<and>
   writes_succeed 3 fresh_backend \<and>
   fst (TcpBackend_Write fresh_backend (replicate 65536 0)) = None \<and>
   wire (snd (TcpBackend_Write fresh_backend (replicate 65536 0))) = [0, 0] @ replicate 65536 0 \<and>
   unat (Uint16 [0, 0]) = 0"
proof -
  have z: "(256::byte) = 0" "(65536::byte) = 0" by simp_all
  show ?thesis
    using TcpBackend_Write_oversize [of "replicate 65536 0" fresh_backend]
    by (simp add: writes_succeed_def fresh_backend_def newTcpBackend_def z)
qed

subsection \<open>Session ids\<close>

lemma nextSession_calls_eq:
  "nextSession_calls n g = map (\<lambda>k. session g + of_nat k) [1..<Suc n]"
proof (induction n arbitrary: g)
  case 0
  show ?case by simp
next
  case (Suc n)
  have "[1..<Suc (Suc n)] = 1 # map Suc [1..<Suc n]"
    by (metis One_nat_def map_Suc_upt upt_conv_Cons zero_less_Suc Suc_less_eq)
  then show ?case
    by (simp add: nextSession_def Suc.IH add.assoc del: upt_Suc)
qed

lemma nextSession_calls_New: "nextSession_calls n New = map of_nat [1..<Suc n]"
  by (simp add: nextSession_calls_eq New_def del: upt_Suc)

lemma nextSession_calls_nth:
  "k < n \<Longrightarrow> nextSession_calls n New ! k = of_nat (Suc k)"
  by (simp add: nextSession_calls_New del: upt_Suc)

lemma u32_of_nat_less:
  "i < j \<Longrightarrow> j < 2 ^ 32 \<Longrightarrow> (of_nat i :: u32) < of_nat j"
  by (simp add: word_less_nat_alt unat_of_nat)

lemma sorted_ids: "n < 2 ^ 32 \<Longrightarrow> sorted_wrt (<) (map (of_nat :: nat \<Rightarrow> u32) [1..<Suc n])"
proof -
  assume n: "n < 2 ^ 32"
  have "sorted_wrt (\<lambda>i j. (of_nat i :: u32) < of_nat j) [1..<Suc n]"
  proof (rule sorted_wrt_mono_rel [where P = "(<)"])
    fix i j assume "i \<in> set [1..<Suc n]" "j \<in> set [1..<Suc n]" "i < j"
    then show "(of_nat i :: u32) < of_nat j"
      using n by (intro u32_of_nat_less) auto
  next
    show "sorted_wrt (<) [1..<Suc n]" by (rule sorted_wrt_upt)
  qed
  then show ?thesis by (simp only: sorted_wrt_map)
qed

text \<open>
  C9, as the code has it. The counter is a \<^verbatim>\<open>uint32\<close> that starts at 0 and
  \<^verbatim>\<open>atomic.AddUint32\<close> wraps. The first call on a fresh Gate returns 1 and the \<open>k\<close>-th
  call returns \<open>k\<close>; among the first \<open>2\<^sup>3\<^sup>2 - 1\<close> calls each id is greater than the one
  before and no id comes twice.
\<close>

theorem nextSession_fresh:
  assumes "n < 2 ^ 32"
  shows "fst (nextSession New) = 1 \<and>
         nextSession_calls n New = map of_nat [1..<Suc n] \<and>
         sorted_wrt (<) (nextSession_calls n New) \<and>
         distinct (nextSession_calls n New)"
proof -
  have f: "fst (nextSession New) = 1"
    by (simp add: nextSession_def New_def)
  have s: "sorted_wrt (<) (nextSession_calls n New)"
    using assms by (simp only: nextSession_calls_New sorted_ids)
  then have d: "distinct (nextSession_calls n New)"
    using strict_sorted_iff by blast
  from f s d nextSession_calls_New show ?thesis by blast
qed

theorem nextSession_fresh_witness:
  "(3::nat) < 2 ^ 32 \<and> fst (nextSession New) = 1 \<and> nextSession_calls 3 New = [1, 2, 3] \<and>
   sorted_wrt (<) (nextSession_calls 3 New) \<and> distinct (nextSession_calls 3 New)"
  using nextSession_fresh [of 3] by (simp add: upt_rec)

text \<open>
  C9 as the spec states it fails on a Gate that lives long enough: of \<open>2\<^sup>3\<^sup>2 + 1\<close> calls
  the \<open>2\<^sup>3\<^sup>2\<close>-th returns 0, after 4294967295, and the next returns 1, as the first did.
\<close>

theorem nextSession_wraps:
  "nextSession_calls 4294967297 New ! 0 = 1 \<and>
   nextSession_calls 4294967297 New ! 4294967294 = 4294967295 \<and>
   nextSession_calls 4294967297 New ! 4294967295 = 0 \<and>
   nextSession_calls 4294967297 New ! 4294967296 = 1"
  by (simp add: nextSession_calls_nth)

subsection \<open>The registry\<close>

lemma kick_absent:
  "sessions (gate w) s = None \<Longrightarrow> kick s w = w\<lparr>trace := trace w @ [Lock, Unlock]\<rparr>"
  by (simp add: kick_def emit_def Let_def)

lemma kick_present:
  "sessions (gate w) s = Some b \<Longrightarrow>
   kick s w = Backend_Close b
     (w\<lparr>gate := (gate w)\<lparr>sessions := (sessions (gate w))(s := None),
                          clinetnum := clinetnum (gate w) - 1\<rparr>,
        trace := trace w @ [Lock, Unlock]\<rparr>)"
  by (simp add: kick_def emit_def Let_def)

lemma gate_Backend_Close [simp]: "gate (Backend_Close b w) = gate w"
  by (cases b) (simp_all add: emit_def)

lemma trace_Backend_Close [simp]: "trace (Backend_Close b w) = trace w @ [CloseCall b]"
  by (cases b) (simp_all add: emit_def)

lemma sessions_kick: "sessions (gate (kick s w)) = (sessions (gate w))(s := None)"
  by (cases "sessions (gate w) s") (auto simp add: kick_absent kick_present)

text \<open>
  C6. Kicking an id that is not in the registry (never allocated, or kicked before)
  does nothing: \<^verbatim>\<open>kick\<close> has no error to return, the Gate (registry and count) and
  every backend object stay as they were, and the trace gains only the taking and
  the release of the lock: no \<^verbatim>\<open>Close()\<close> is called and nothing is notified. After a
  kick the id is missing, so a second kick of it is such a no-op.
\<close>

theorem kick_missing_is_noop:
  assumes "sessions (gate w) s = None"
  shows "kick s w = w\<lparr>trace := trace w @ [Lock, Unlock]\<rparr> \<and>
         kick s (kick s v) = (kick s v)\<lparr>trace := trace (kick s v) @ [Lock, Unlock]\<rparr>"
proof -
  have "sessions (gate (kick s v)) s = None" by (simp add: sessions_kick)
  then show ?thesis using assms by (simp add: kick_absent)
qed

text \<open>
  C7. Kicking an id that is in the registry removes that entry and no other, takes
  one off \<^verbatim>\<open>clinetnum\<close>, and calls \<^verbatim>\<open>Close()\<close> on the backend that was found, after
  the lock has been released: the trace gains \<^verbatim>\<open>Lock\<close>, \<^verbatim>\<open>Unlock\<close> and the call, in
  that order.
\<close>

theorem kick_present_removes:
  assumes "sessions (gate w) s = Some b"
  shows "kick s w = Backend_Close b
           (w\<lparr>gate := (gate w)\<lparr>sessions := (sessions (gate w))(s := None),
                                clinetnum := clinetnum (gate w) - 1\<rparr>,
              trace := trace w @ [Lock, Unlock]\<rparr>) \<and>
         sessions (gate (kick s w)) = (sessions (gate w))(s := None) \<and>
         (\<forall>s'. s' \<noteq> s \<longrightarrow> sessions (gate (kick s w)) s' = sessions (gate w) s') \<and>
         clinetnum (gate (kick s w)) = clinetnum (gate w) - 1 \<and>
         session (gate (kick s w)) = session (gate w) \<and>
         maxclient (gate (kick s w)) = maxclient (gate w) \<and>
         trace (kick s w) = trace w @ [Lock, Unlock, CloseCall b]"
  using assms by (simp add: kick_present)

lemma Gate_Write_absent:
  "sessions (gate w) s = None \<Longrightarrow>
   Gate_Write s data w = (None, w\<lparr>trace := trace w @ [RLock, RUnlock]\<rparr>)"
  by (simp add: Gate_Write_def emit_def Let_def)

lemma Gate_Write_present:
  "sessions (gate w) s = Some b \<Longrightarrow>
   Gate_Write s data w = Backend_Write b data (w\<lparr>trace := trace w @ [RLock, RUnlock]\<rparr>)"
  by (simp add: Gate_Write_def emit_def Let_def)

text \<open>
  C5. \<^verbatim>\<open>Gate.Write\<close> to an id that is not in the registry returns \<^verbatim>\<open>nil\<close> and leaves the
  Gate and every backend as they were (the read lock is taken and released). To an
  id that is there it is the \<^verbatim>\<open>Write\<close> of the backend found, and returns its error:
  that of \<^verbatim>\<open>TcpBackend.Write\<close> or of \<^verbatim>\<open>SendText\<close>.
\<close>

theorem Gate_Write_lookup:
  "(sessions (gate w) s = None \<longrightarrow>
      Gate_Write s data w = (None, w\<lparr>trace := trace w @ [RLock, RUnlock]\<rparr>)) \<and>
   (\<forall>b. sessions (gate w) s = Some b \<longrightarrow>
      Gate_Write s data w = Backend_Write b data (w\<lparr>trace := trace w @ [RLock, RUnlock]\<rparr>)) \<and>
   (\<forall>p. sessions (gate w) s = Some (TcpPtr p) \<longrightarrow>
      fst (Gate_Write s data w) = fst (TcpBackend_Write (tcp w p) data)) \<and>
   (\<forall>p. sessions (gate w) s = Some (WsPtr p) \<longrightarrow>
      fst (Gate_Write s data w) = fst (SendText (ws w p) data))"
  by (auto simp add: Gate_Write_absent Gate_Write_present WebsocketBackend_Write_def
      split: prod.splits)


lemmas admit_unfold = admit_def accept_round_def nextSession_def alloc_tcp_def
  newTcpBackend_def emit_def Let_def

lemma gate_two_sessions:
  "gate two_sessions = \<lparr>session = 2, clinetnum = 2, maxclient = 0,
      sessions = [1 \<mapsto> TcpPtr 0, 2 \<mapsto> TcpPtr 1]\<rparr>"
  by (simp add: two_sessions_def admit_unfold world0_def New_def conn_a_def conn_b_def)

lemma trace_two_sessions: "trace two_sessions = [GoServe 0, GoServe 1]"
  by (simp add: two_sessions_def admit_unfold world0_def New_def conn_a_def conn_b_def)

lemma fst_case_prod_keep: "fst (case p of (a, b) \<Rightarrow> (a, f b)) = fst p"
  by (cases p) simp

lemma tcp_two_sessions:
  "tcp two_sessions 0 = newTcpBackend 1 conn_a" "tcp two_sessions 1 = newTcpBackend 2 conn_b"
  by (simp_all add: two_sessions_def admit_unfold world0_def New_def conn_a_def conn_b_def)

theorem kick_missing_is_noop_witness:
  "sessions (gate two_sessions) 999 = None \<and>
   kick 999 two_sessions = two_sessions\<lparr>trace := [GoServe 0, GoServe 1, Lock, Unlock]\<rparr> \<and>
   trace (kick 1 two_sessions) = [GoServe 0, GoServe 1, Lock, Unlock, CloseCall (TcpPtr 0)] \<and>
   kick 1 (kick 1 two_sessions) = (kick 1 two_sessions)\<lparr>trace :=
     [GoServe 0, GoServe 1, Lock, Unlock, CloseCall (TcpPtr 0), Lock, Unlock]\<rparr>"
proof -
  have a: "sessions (gate two_sessions) 999 = None"
    by (simp add: gate_two_sessions)
  have b: "sessions (gate (kick 1 two_sessions)) 1 = None"
    by (simp add: sessions_kick)
  have c: "trace (kick 1 two_sessions) = [GoServe 0, GoServe 1, Lock, Unlock, CloseCall (TcpPtr 0)]"
    by (simp add: kick_present [where b = "TcpPtr 0"] gate_two_sessions trace_two_sessions emit_def)
  from a c kick_missing_is_noop [OF a, of two_sessions] kick_missing_is_noop [OF b, of two_sessions]
  show ?thesis by (simp add: trace_two_sessions)
qed

theorem kick_present_removes_witness:
  "sessions (gate two_sessions) 1 = Some (TcpPtr 0) \<and>
   sessions (gate (kick 1 two_sessions)) = [2 \<mapsto> TcpPtr 1] \<and>
   clinetnum (gate (kick 1 two_sessions)) = 1 \<and>
   trace (kick 1 two_sessions) = [GoServe 0, GoServe 1, Lock, Unlock, CloseCall (TcpPtr 0)]"
proof -
  have a: "sessions (gate two_sessions) 1 = Some (TcpPtr 0)"
    by (simp add: gate_two_sessions)
  have m: "[1 \<mapsto> TcpPtr 0, 2 \<mapsto> TcpPtr 1](1 := None) = [(2::u32) \<mapsto> TcpPtr 1]"
    by (rule ext) simp
  from kick_present_removes [OF a]
  have "sessions (gate (kick 1 two_sessions)) = (sessions (gate two_sessions))(1 := None)"
    and "clinetnum (gate (kick 1 two_sessions)) = clinetnum (gate two_sessions) - 1"
    and "trace (kick 1 two_sessions) = trace two_sessions @ [Lock, Unlock, CloseCall (TcpPtr 0)]"
    by blast+
  with a m show ?thesis
    by (simp add: gate_two_sessions trace_two_sessions)
qed

theorem Gate_Write_lookup_witness:
  "sessions (gate two_sessions) 999 = None \<and>
   Gate_Write 999 [1, 2] two_sessions =
     (None, two_sessions\<lparr>trace := [GoServe 0, GoServe 1, RLock, RUnlock]\<rparr>) \<and>
   sessions (gate two_sessions) 1 = Some (TcpPtr 0) \<and>
   fst (Gate_Write 1 [1, 2] two_sessions) = Some (NetError False) \<and>
   sessions (gate two_sessions) 2 = Some (TcpPtr 1) \<and>
   fst (Gate_Write 2 [1, 2] two_sessions) = None"
proof -
  have a: "sessions (gate two_sessions) 999 = None"
    and b: "sessions (gate two_sessions) 1 = Some (TcpPtr 0)"
    and c: "sessions (gate two_sessions) 2 = Some (TcpPtr 1)"
    by (simp_all add: gate_two_sessions)
  have d: "fst (TcpBackend_Write (newTcpBackend 1 conn_a) [1, 2]) = Some (NetError False)"
    by (simp add: TcpBackend_Write_def brw_Write_def next_fault_def newTcpBackend_def conn_a_def)
  have e: "fst (TcpBackend_Write (newTcpBackend 2 conn_b) [1, 2]) = None"
    by (simp add: TcpBackend_Write_def brw_Write_def brw_Flush_def next_fault_def
        newTcpBackend_def conn_b_def)
  from a b c d e Gate_Write_lookup [of two_sessions 999 "[1, 2]"]
    Gate_Write_lookup [of two_sessions 1 "[1, 2]"] Gate_Write_lookup [of two_sessions 2 "[1, 2]"]
  show ?thesis by (simp add: trace_two_sessions tcp_two_sessions fst_case_prod_keep del: One_nat_def)
qed

subsection \<open>Reading frames\<close>

lemma read_upto_Data:
  "n \<le> length bs \<Longrightarrow>
   read_upto (map Data bs @ rest) n = (take n bs, None, map Data (drop n bs) @ rest)"
proof (induction n arbitrary: bs)
  case 0
  show ?case by simp
next
  case (Suc n)
  then obtain b bs' where bs: "bs = b # bs'" by (cases bs) auto
  with Suc show ?case by simp
qed

lemma io_ReadFull_Data:
  "length buf \<le> length bs \<Longrightarrow>
   io_ReadFull (map Data bs @ rest) buf =
     (take (length buf) bs, None, map Data (drop (length buf) bs) @ rest)"
  by (simp add: io_ReadFull_def read_upto_Data)

lemma read_upto_Nil: "read_upto [] n = ([], if n = 0 then None else Some EOF, [])"
  by (cases n) simp_all

lemma io_ReadFull_Nil: "io_ReadFull [] buf = (buf, if buf = [] then None else Some EOF, [])"
  by (simp add: io_ReadFull_def read_upto_Nil)

lemma readFull_Data:
  "incoming (tcp w p) = map Data bs @ rest \<Longrightarrow> length buf \<le> length bs \<Longrightarrow>
   readFull p buf w =
     (None, take (length buf) bs, with_incoming p (map Data (drop (length buf) bs) @ rest) w)"
  by (simp add: readFull_def io_ReadFull_Data with_incoming_def)

lemma readFull_Nil:
  "incoming (tcp w p) = [] \<Longrightarrow> readFull p buf w = (None, buf, with_incoming p [] w)"
  by (simp add: readFull_def io_ReadFull_Nil with_incoming_def)

lemma with_incoming_same: "incoming (tcp w p) = rd \<Longrightarrow> with_incoming p rd w = w"
  by (auto simp add: with_incoming_def)

lemma incoming_with_incoming [simp]: "incoming (tcp (with_incoming p rd w) p) = rd"
  by (simp add: with_incoming_def)

lemma session_with_incoming [simp]:
  "TcpBackend.session (tcp (with_incoming p rd w) q) = TcpBackend.session (tcp w q)"
  by (simp add: with_incoming_def)

lemma with_incoming_twice [simp]:
  "with_incoming p rd (with_incoming p rd' w) = with_incoming p rd w"
  by (simp add: with_incoming_def)

lemma gate_with_incoming [simp]: "gate (with_incoming p rd w) = gate w"
  by (simp add: with_incoming_def)

lemma incoming_emit [simp]: "tcp (emit e w) = tcp w"
  by (simp add: emit_def)

text \<open>The peer has hung up: the loop goes round for ever.\<close>

lemma serve_loop_EOF:
  "incoming (tcp w p) = [] \<Longrightarrow>
   serve_loop n p head w =
     Running head (w\<lparr>trace := trace w @
        replicate n (Notify (TcpBackend.session (tcp w p)) OnMessage
                       (replicate (unat (Uint16 head)) 0))\<rparr>)"
proof (induction n arbitrary: w)
  case 0
  show ?case by simp
next
  case (Suc n)
  let ?e = "Notify (TcpBackend.session (tcp w p)) OnMessage (replicate (unat (Uint16 head)) 0)"
  have r: "readFull p buf w = (None, buf, w)" for buf
    using Suc.prems by (simp add: readFull_Nil with_incoming_same)
  have i: "incoming (tcp (emit ?e w) p) = []"
    using Suc.prems by simp
  have "serve_loop (Suc n) p head w = serve_loop n p head (emit ?e w)"
    by (simp add: r Let_def)
  also have "\<dots> = Running head ((emit ?e w)\<lparr>trace := trace (emit ?e w) @ replicate n ?e\<rparr>)"
    using Suc.IH [OF i] by simp
  also have "(emit ?e w)\<lparr>trace := trace (emit ?e w) @ replicate n ?e\<rparr> =
             w\<lparr>trace := trace w @ replicate (Suc n) ?e\<rparr>"
    by (simp add: emit_def replicate_app_Cons_same)
  finally show ?case .
qed

lemma serve_loop_frame:
  assumes "incoming (tcp w p) = map Data ([a, b] @ body) @ rest"
    and "length head = 2" and "unat (Uint16 [a, b]) \<le> length body"
  shows "serve_loop (Suc n) p head w =
     serve_loop n p [a, b]
       (emit (Notify (TcpBackend.session (tcp w p)) OnMessage (take (unat (Uint16 [a, b])) body))
          (with_incoming p (map Data (drop (unat (Uint16 [a, b])) body) @ rest) w))"
proof -
  let ?m = "unat (Uint16 [a, b])"
  let ?w1 = "with_incoming p (map Data body @ rest) w"
  have r1: "readFull p head w = (None, [a, b], ?w1)"
    using readFull_Data [OF assms(1), of head] assms(2) by simp
  have r2: "readFull p (replicate ?m 0) ?w1 =
      (None, take ?m body, with_incoming p (map Data (drop ?m body) @ rest) w)"
    using readFull_Data [of ?w1 p body rest "replicate ?m 0"] assms(3) by simp
  show ?thesis
    by (simp add: r1 r2 Let_def)
qed

lemma read_upto_Fail:
  "length bs < n \<Longrightarrow> read_upto (map Data bs @ Fail e # rest) n = (bs, Some e, rest)"
proof (induction bs arbitrary: n)
  case Nil
  then show ?case by (cases n) simp_all
next
  case (Cons b bs)
  then show ?case by (cases n) simp_all
qed

lemma io_ReadFull_Fail:
  "length bs < length buf \<Longrightarrow>
   io_ReadFull (map Data bs @ Fail e # rest) buf =
     (bs @ drop (length bs) buf,
      if bs \<noteq> [] \<and> e = EOF then Some ErrUnexpectedEOF else Some e, rest)"
  by (simp add: io_ReadFull_def read_upto_Fail)

text \<open>A read that fails with a \<^verbatim>\<open>net.Error\<close> that is not temporary is reported.\<close>

lemma readFull_fatal:
  assumes "incoming (tcp w p) = map Data bs @ Fail (NetError False) # rest"
    and "length bs < length buf"
  shows "readFull p buf w =
    (Some (NetError False), bs @ drop (length bs) buf, with_incoming p rest w)"
  using assms by (simp add: readFull_def io_ReadFull_Fail with_incoming_def)

text \<open>Any other failure is swallowed: \<^verbatim>\<open>readFull\<close> returns \<^verbatim>\<open>nil\<close> with the buffer half filled.\<close>

lemma readFull_swallowed:
  assumes "incoming (tcp w p) = map Data bs @ Fail e # rest"
    and "length bs < length buf" and "e \<noteq> NetError False"
  shows "readFull p buf w = (None, bs @ drop (length bs) buf, with_incoming p rest w)"
proof -
  have "\<not> net_Error_not_Temporary e" using assms(3) by (cases e) auto
  moreover have "\<not> net_Error_not_Temporary ErrUnexpectedEOF" by simp
  ultimately show ?thesis
    using assms(1,2) by (simp add: readFull_def io_ReadFull_Fail with_incoming_def)
qed

lemma serve_loop_fatal_head:
  assumes "incoming (tcp w p) = map Data bs @ Fail (NetError False) # rest"
    and "length bs < 2" and "length head = 2"
  shows "serve_loop (Suc n) p head w =
     Returned (kick (TcpBackend.session (tcp w p)) (with_incoming p rest w))"
  using readFull_fatal [OF assms(1), of head] assms(2,3) by simp

lemma serve_loop_fatal_body:
  assumes "incoming (tcp w p) = map Data ([a, b] @ bs) @ Fail (NetError False) # rest"
    and "length bs < unat (Uint16 [a, b])" and "length head = 2"
  shows "serve_loop (Suc n) p head w =
     Returned (kick (TcpBackend.session (tcp w p)) (with_incoming p rest w))"
proof -
  let ?w1 = "with_incoming p (map Data bs @ Fail (NetError False) # rest) w"
  have "incoming (tcp w p) = map Data [a, b] @ (map Data bs @ Fail (NetError False) # rest)"
    using assms(1) by simp
  from readFull_Data [OF this, of head]
  have r1: "readFull p head w = (None, [a, b], ?w1)"
    using assms(3) by simp
  have "incoming (tcp ?w1 p) = map Data bs @ Fail (NetError False) # rest" by simp
  from readFull_fatal [OF this, of "replicate (unat (Uint16 [a, b])) 0"]
  have r2: "readFull p (replicate (unat (Uint16 [a, b])) 0) ?w1 =
     (Some (NetError False), bs @ drop (length bs) (replicate (unat (Uint16 [a, b])) 0),
      with_incoming p rest w)"
    using assms(2) by simp
  show ?thesis by (simp add: r1 r2 Let_def)
qed

lemma serve_loop_temporary_head:
  assumes "incoming (tcp w p) = Fail (NetError True) # rest" and "length head = 2"
  shows "serve_loop (Suc n) p head w =
     (case readFull p (replicate (unat (Uint16 head)) 0) (with_incoming p rest w) of
        (Some err, data1, w2) \<Rightarrow> Returned (kick (TcpBackend.session (tcp w2 p)) w2)
      | (None, data1, w2) \<Rightarrow>
          serve_loop n p head (emit (Notify (TcpBackend.session (tcp w2 p)) OnMessage data1) w2))"
proof -
  have "incoming (tcp w p) = map Data [] @ Fail (NetError True) # rest"
    using assms(1) by simp
  from readFull_swallowed [OF this, of head] assms(2)
  have "readFull p head w = (None, head, with_incoming p rest w)" by simp
  then show ?thesis by (simp add: Let_def)
qed

lemma conn_b_hello: "conn_incoming conn_b = map Data ([0, 5] @ hello) @ []"
  by (simp add: conn_b_def)

lemma Uint16_0_5: "unat (Uint16 [0, 5]) = 5"
  by (simp add: Uint16_def)

text \<open>
  C1, where the code departs from it. The second client of \<open>two_sessions\<close> sends one
  frame and hangs up. The read loop of its backend notifies \<^verbatim>\<open>hello\<close>; the next read of
  the header meets the end of the stream, \<^verbatim>\<open>io.ReadFull\<close> returns \<^verbatim>\<open>io.EOF\<close>, which is
  no \<^verbatim>\<open>net.Error\<close>, and \<^verbatim>\<open>readFull\<close> returns \<^verbatim>\<open>nil\<close>. So the loop never returns and never
  kicks: whatever the fuel, it is still running, session 2 is still registered, and
  each further round has notified a message of five zero bytes, the length still
  being taken from the old header.
\<close>

theorem serve_spins_after_hangup:
  "serve (Suc n) 1 two_sessions =
     Running [0, 5]
       ((with_incoming 1 [] two_sessions)\<lparr>trace :=
          [GoServe 0, GoServe 1, Notify 2 OnMessage hello] @
          replicate n (Notify 2 OnMessage [0, 0, 0, 0, 0])\<rparr>)"
proof -
  have i: "incoming (tcp two_sessions 1) = map Data ([0, 5] @ hello) @ []"
    by (simp add: tcp_two_sessions newTcpBackend_def conn_b_hello del: One_nat_def append_Nil2)
  have s: "TcpBackend.session (tcp two_sessions 1) = 2"
    by (simp add: tcp_two_sessions newTcpBackend_def del: One_nat_def)
  let ?w = "emit (Notify 2 OnMessage hello) (with_incoming 1 [] two_sessions)"
  have "serve (Suc n) 1 two_sessions = serve_loop n 1 [0, 5] ?w"
    unfolding serve_def
    using serve_loop_frame [OF i, of "replicate 2 0" n]
    by (simp add: Uint16_0_5 hello_def s del: One_nat_def)
  also have "\<dots> = Running [0, 5] (?w\<lparr>trace := trace ?w @
        replicate n (Notify (TcpBackend.session (tcp ?w 1)) OnMessage
                       (replicate (unat (Uint16 [0, 5])) 0))\<rparr>)"
    by (rule serve_loop_EOF) simp
  also have "\<dots> = Running [0, 5]
       ((with_incoming 1 [] two_sessions)\<lparr>trace :=
          [GoServe 0, GoServe 1, Notify 2 OnMessage hello] @
          replicate n (Notify 2 OnMessage [0, 0, 0, 0, 0])\<rparr>)"
    by (simp add: Uint16_0_5 s emit_def with_incoming_def trace_two_sessions
        numeral_eq_Suc del: One_nat_def)
  finally show ?thesis .
qed

subsection \<open>Round trip\<close>

lemma Gate_Write_tcp_ok:
  assumes "sessions (gate v) s = Some (TcpPtr q)" and "writes_succeed 3 (tcp v q)"
  shows "fst (Gate_Write s data v) = None"
    and "wire (tcp (snd (Gate_Write s data v)) q) =
         wire (tcp v q) @ wbuf (tcp v q) @ [of_nat (length data div 256), of_nat (length data)] @ data"
  using assms
  by (simp_all add: Gate_Write_present TcpBackend_Write_ok PutUint16_of_nat)

text \<open>
  C2, as the code has it. \<open>t\<close> is the sender's backend, \<open>p\<close> the receiver's, whose
  stream begins with what this call of \<^verbatim>\<open>Write\<close> has put on the wire. When the payload
  has at most 65535 bytes, one round of the read loop notifies exactly the payload
  and leaves the stream after the frame. A longer payload is rejected nowhere:
  \<^verbatim>\<open>Gate.Write\<close> passes any payload on and returns \<^verbatim>\<open>nil\<close>, the header holds the length
  modulo 65536, and the read loop notifies only that many bytes of it.
\<close>

theorem frame_roundtrip:
  assumes "writes_succeed 3 t" and "wbuf t = []"
    and "length head = 2"
    and "incoming (tcp w p) =
           map Data (drop (length (wire t)) (wire (snd (TcpBackend_Write t data)))) @ rest"
  shows "fst (TcpBackend_Write t data) = None \<and>
    (length data \<le> 65535 \<longrightarrow>
       serve_loop (Suc n) p head w =
         serve_loop n p [of_nat (length data div 256), of_nat (length data)]
           (emit (Notify (TcpBackend.session (tcp w p)) OnMessage data)
              (with_incoming p rest w))) \<and>
    (65535 < length data \<longrightarrow>
       serve_loop (Suc n) p head w =
         serve_loop n p [of_nat (length data div 256), of_nat (length data)]
           (emit (Notify (TcpBackend.session (tcp w p)) OnMessage
                    (take (length data mod 65536) data))
              (with_incoming p (map Data (drop (length data mod 65536) data) @ rest) w)) \<and>
       take (length data mod 65536) data \<noteq> data) \<and>
    (\<forall>v s q. sessions (gate v) s = Some (TcpPtr q) \<and> writes_succeed 3 (tcp v q) \<longrightarrow>
       fst (Gate_Write s data v) = None \<and>
       wire (tcp (snd (Gate_Write s data v)) q) =
         wire (tcp v q) @ wbuf (tcp v q) @
         [of_nat (length data div 256), of_nat (length data)] @ data)"
proof -
  let ?a = "of_nat (length data div 256) :: byte" and ?b = "of_nat (length data) :: byte"
  let ?m = "length data mod 65536"
  have m: "unat (Uint16 [?a, ?b]) = ?m"
    using unat_Uint16_of_nat [of "length data"] by (simp add: PutUint16_of_nat)
  have ok: "fst (TcpBackend_Write t data) = None"
    using assms(1) by (simp add: TcpBackend_Write_ok)
  have "wire (snd (TcpBackend_Write t data)) = wire t @ [?a, ?b] @ data"
    using assms(1,2) by (simp add: TcpBackend_Write_ok PutUint16_of_nat)
  then have i: "incoming (tcp w p) = map Data ([?a, ?b] @ data) @ rest"
    using assms(4) by simp
  have le: "unat (Uint16 [?a, ?b]) \<le> length data"
    by (simp only: m mod_less_eq_dividend)
  have dec: "serve_loop (Suc n) p head w =
     serve_loop n p [?a, ?b]
       (emit (Notify (TcpBackend.session (tcp w p)) OnMessage (take ?m data))
          (with_incoming p (map Data (drop ?m data) @ rest) w))"
    using serve_loop_frame [OF i assms(3) le, of n] by (simp only: m)
  have small: "length data \<le> 65535 \<Longrightarrow> ?m = length data" by simp
  have big: "65535 < length data \<Longrightarrow> take ?m data \<noteq> data"
  proof
    assume "65535 < length data" and "take ?m data = data"
    then have "length (take ?m data) = length data" by simp
    then have "?m = length data" by (simp add: min_def split: if_splits)
    moreover have "?m < 65536" by simp
    ultimately show False using \<open>65535 < length data\<close> by linarith
  qed
  show ?thesis
    using ok dec big by (auto simp add: small Gate_Write_tcp_ok)
qed

lemma two_sessions_1:
  "incoming (tcp two_sessions 1) = map Data ([0, 5] @ hello)"
  "TcpBackend.session (tcp two_sessions 1) = 2"
  "wfaults (tcp two_sessions 1) = []" "wbuf (tcp two_sessions 1) = []" "wire (tcp two_sessions 1) = []"
  by (simp_all add: tcp_two_sessions newTcpBackend_def conn_b_def del: One_nat_def)

lemma writes_succeed_fresh: "writes_succeed 3 fresh_backend" "wbuf fresh_backend = []"
  "wire fresh_backend = []"
  by (simp_all add: writes_succeed_def fresh_backend_def newTcpBackend_def)

theorem frame_roundtrip_witness:
  "writes_succeed 3 fresh_backend \<and> wbuf fresh_backend = [] \<and> length [0, 0 :: byte] = 2 \<and>
   length hello \<le> 65535 \<and>
   wire (snd (TcpBackend_Write fresh_backend hello)) = [0, 5] @ hello \<and>
   incoming (tcp two_sessions 1) = map Data ([0, 5] @ hello) \<and>
   serve_loop (Suc 0) 1 [0, 0] two_sessions =
     Running [0, 5] (emit (Notify 2 OnMessage hello) (with_incoming 1 [] two_sessions)) \<and>
   65535 < length (replicate 65536 (7 :: byte)) \<and>
   wire (snd (TcpBackend_Write fresh_backend (replicate 65536 7))) = [0, 0] @ replicate 65536 7 \<and>
   serve_loop (Suc 0) 1 [0, 0]
       (with_incoming 1 (map Data ([0, 0] @ replicate 65536 7)) two_sessions) =
     Running [0, 0] (emit (Notify 2 OnMessage [])
       (with_incoming 1 (map Data (replicate 65536 7)) two_sessions)) \<and>
   sessions (gate two_sessions) 2 = Some (TcpPtr 1) \<and> writes_succeed 3 (tcp two_sessions 1) \<and>
   fst (Gate_Write 2 (replicate 65536 7) two_sessions) = None"
proof -
  have w: "wire (snd (TcpBackend_Write fresh_backend d)) =
           [of_nat (length d div 256), of_nat (length d)] @ d" for d
    by (simp add: TcpBackend_Write_ok writes_succeed_fresh PutUint16_of_nat)
  have z: "(256::byte) = 0" "(65536::byte) = 0" by simp_all
  have h: "length hello = 5" by (simp add: hello_def)
  have i1: "incoming (tcp two_sessions 1) =
      map Data (drop (length (wire fresh_backend)) (wire (snd (TcpBackend_Write fresh_backend hello)))) @ []"
    by (simp add: w two_sessions_1 writes_succeed_fresh h del: One_nat_def)
  let ?big = "replicate 65536 (7::byte)"
  let ?w2 = "with_incoming 1 (map Data ([0, 0] @ ?big)) two_sessions"
  have i2: "incoming (tcp ?w2 1) =
      map Data (drop (length (wire fresh_backend)) (wire (snd (TcpBackend_Write fresh_backend ?big)))) @ []"
    by (simp add: w writes_succeed_fresh z del: One_nat_def)
  have g: "sessions (gate two_sessions) 2 = Some (TcpPtr 1)"
    by (simp add: gate_two_sessions)
  have s: "writes_succeed 3 (tcp two_sessions 1)"
    by (simp add: writes_succeed_def two_sessions_1 del: One_nat_def)
  have l2: "length [0, 0 :: byte] = 2" by simp
  from frame_roundtrip [OF writes_succeed_fresh(1,2) l2 i1, of 0]
  have r1: "serve_loop (Suc 0) 1 [0, 0] two_sessions =
     Running [0, 5] (emit (Notify 2 OnMessage hello) (with_incoming 1 [] two_sessions))"
    by (simp add: h two_sessions_1 del: One_nat_def)
  from frame_roundtrip [OF writes_succeed_fresh(1,2) l2 i2, of 0]
  have r2: "serve_loop (Suc 0) 1 [0, 0] ?w2 =
     Running [0, 0] (emit (Notify 2 OnMessage [])
       (with_incoming 1 (map Data ?big) two_sessions))"
    and r3: "fst (Gate_Write 2 ?big two_sessions) = None"
    using g s by (simp_all add: z two_sessions_1 del: One_nat_def)
  from r1 r2 r3 g s show ?thesis
    by (simp add: w writes_succeed_fresh h two_sessions_1 z del: One_nat_def)
qed

text \<open>
  C2 as the spec states it fails in its last part: nothing before the backend rejects
  a payload of 65536 bytes. \<^verbatim>\<open>Gate.Write\<close> returns \<^verbatim>\<open>nil\<close>, the peer receives the header
  \<^verbatim>\<open>0x00 0x00\<close> and the 65536 bytes, and a read loop fed with that notifies an empty
  message and takes the payload for further frames.
\<close>

theorem oversize_not_rejected:
  "fst (Gate_Write 2 (replicate 65536 7) two_sessions) = None \<and>
   wire (tcp (snd (Gate_Write 2 (replicate 65536 7) two_sessions)) 1) = [0, 0] @ replicate 65536 7 \<and>
   serve_loop (Suc 0) 1 [0, 0]
       (with_incoming 1 (map Data ([0, 0] @ replicate 65536 7)) two_sessions) =
     Running [0, 0] (emit (Notify 2 OnMessage [])
       (with_incoming 1 (map Data (replicate 65536 7)) two_sessions))"
proof -
  have z: "(256::byte) = 0" "(65536::byte) = 0" by simp_all
  have g: "sessions (gate two_sessions) 2 = Some (TcpPtr 1)"
    by (simp add: gate_two_sessions)
  have s: "writes_succeed 3 (tcp two_sessions 1)"
    by (simp add: writes_succeed_def two_sessions_1 del: One_nat_def)
  let ?big = "replicate 65536 (7::byte)"
  let ?w2 = "with_incoming 1 (map Data ([0, 0] @ ?big)) two_sessions"
  have i: "incoming (tcp ?w2 1) = map Data ([0, 0] @ []) @ map Data ?big" by simp
  have u: "unat (Uint16 [0, 0]) = 0" by (simp add: Uint16_def)
  have "serve_loop (Suc 0) 1 [0, 0] ?w2 =
     Running [0, 0] (emit (Notify 2 OnMessage []) (with_incoming 1 (map Data ?big) two_sessions))"
    using serve_loop_frame [OF i, of "[0, 0]" 0] by (simp add: u two_sessions_1 del: One_nat_def)
  then show ?thesis
    using Gate_Write_tcp_ok [OF g s, of ?big]
    by (simp add: z two_sessions_1 del: One_nat_def)
qed

subsection \<open>Admission\<close>

lemma open_gate_tcp:
  "path conf = [] \<Longrightarrow>
   open_gate conf None w =
     Some (TcpAccepting (Conf.maxclient conf), w\<lparr>gate := (gate w)\<lparr>maxclient := Conf.maxclient conf\<rparr>\<rparr>)"
  by (simp add: open_gate_def Let_def)

lemma accept_round_refuse:
  "mc \<noteq> 0 \<Longrightarrow> mc \<le> clinetnum (gate w) \<Longrightarrow>
   accept_round mc (Accepted c) w = (Break, emit RefusedConnClose w)"
  by (simp add: accept_round_def)

lemma accept_round_admit:
  "\<not> (mc \<noteq> 0 \<and> mc \<le> clinetnum (gate w)) \<Longrightarrow>
   accept_round mc (Accepted c) w =
     (Continue,
      w\<lparr>gate := (gate w)\<lparr>clinetnum := clinetnum (gate w) + 1,
                           session := session (gate w) + 1,
                           sessions := (sessions (gate w))(session (gate w) + 1 \<mapsto> TcpPtr (nalloc w))\<rparr>,
        tcp := (tcp w)(nalloc w := newTcpBackend (session (gate w) + 1) c),
        nalloc := nalloc w + 1,
        trace := trace w @ [GoServe (nalloc w)]\<rparr>)"
  by (simp add: accept_round_def nextSession_def alloc_tcp_def emit_def Let_def)

lemma accept_round_error: "accept_round mc (AcceptError e) w = (Continue, w)"
  by (simp add: accept_round_def)

lemma accept_round_unlimited: "fst (accept_round 0 r w) = Continue"
  by (cases r) (simp_all add: accept_round_error accept_round_admit)

lemma step_unlimited: "fst (step (TcpAccepting 0, w) e) = TcpAccepting 0"
proof (cases e)
  case (Arrives r)
  obtain w' where "accept_round 0 r w = (Continue, w')"
    using accept_round_unlimited [of r w] by (cases "accept_round 0 r w") simp
  with Arrives show ?thesis by simp
qed simp_all

lemma run_unlimited: "fst (run (TcpAccepting 0, w) evs) = TcpAccepting 0"
proof (induction evs arbitrary: w)
  case Nil
  show ?case by (simp add: run_def)
next
  case (Cons e evs)
  obtain w' where "step (TcpAccepting 0, w) e = (TcpAccepting 0, w')"
    using step_unlimited [of w e] by (cases "step (TcpAccepting 0, w) e") simp
  then show ?case using Cons.IH [of w'] by (simp add: run_def)
qed

lemma gate_Backend_Write [simp]: "gate (snd (Backend_Write b data w)) = gate w"
  by (cases b) (simp_all split: prod.splits)

lemma nalloc_Backend_Write [simp]: "nalloc (snd (Backend_Write b data w)) = nalloc w"
  by (cases b) (simp_all split: prod.splits)

lemma nalloc_Backend_Close [simp]: "nalloc (Backend_Close b w) = nalloc w"
  by (cases b) (simp_all add: emit_def)

lemma gate_Gate_Write [simp]: "gate (snd (Gate_Write s data w)) = gate w"
  by (cases "sessions (gate w) s") (simp_all add: Gate_Write_absent Gate_Write_present)

lemma nalloc_Gate_Write [simp]: "nalloc (snd (Gate_Write s data w)) = nalloc w"
  by (cases "sessions (gate w) s") (simp_all add: Gate_Write_absent Gate_Write_present)

lemma session_kick [simp]: "session (gate (kick s w)) = session (gate w)"
  by (cases "sessions (gate w) s") (simp_all add: kick_absent kick_present)

lemma nalloc_kick [simp]: "nalloc (kick s w) = nalloc w"
  by (cases "sessions (gate w) s") (simp_all add: kick_absent kick_present)

lemma step_stopped:
  "admits_nothing w (TcpStopped, v) \<Longrightarrow> admits_nothing w (step (TcpStopped, v) e)"
  by (cases e) (auto simp add: admits_nothing_def sessions_kick)

lemma run_stopped:
  "admits_nothing w (TcpStopped, v) \<Longrightarrow> admits_nothing w (run (TcpStopped, v) evs)"
proof (induction evs arbitrary: v)
  case Nil
  then show ?case by (simp add: run_def)
next
  case (Cons e evs)
  obtain v' where s: "step (TcpStopped, v) e = (TcpStopped, v')"
    using step_stopped [OF Cons.prems, of e]
    by (cases "step (TcpStopped, v) e") (simp add: admits_nothing_def)
  with step_stopped [OF Cons.prems, of e] have "admits_nothing w (TcpStopped, v')" by simp
  from Cons.IH [OF this] s show ?case by (simp add: run_def)
qed

text \<open>
  C4. With a limit \<open>mc\<close> that is not 0, a connection accepted while \<^verbatim>\<open>clinetnum\<close> has
  reached the limit is closed at once and the accept loop ends; whatever happens
  then, kicks that bring the count down and connections that arrive, the Gate takes
  no connection any more. With the limit 0 a connection accepted is always
  registered, and the loop never ends.
\<close>

theorem accept_loop_stops_for_good:
  "(mc \<noteq> 0 \<and> mc \<le> clinetnum (gate w) \<longrightarrow>
      step (TcpAccepting mc, w) (Arrives (Accepted c)) = (TcpStopped, emit RefusedConnClose w) \<and>
      admits_nothing w (run (step (TcpAccepting mc, w) (Arrives (Accepted c))) evs)) \<and>
   step (TcpAccepting 0, w) (Arrives (Accepted c)) =
     (TcpAccepting 0,
      w\<lparr>gate := (gate w)\<lparr>clinetnum := clinetnum (gate w) + 1,
                           session := session (gate w) + 1,
                           sessions := (sessions (gate w))(session (gate w) + 1 \<mapsto> TcpPtr (nalloc w))\<rparr>,
        tcp := (tcp w)(nalloc w := newTcpBackend (session (gate w) + 1) c),
        nalloc := nalloc w + 1,
        trace := trace w @ [GoServe (nalloc w)]\<rparr>) \<and>
   fst (run (TcpAccepting 0, w) evs) = TcpAccepting 0"
proof -
  have "admits_nothing w (TcpStopped, emit RefusedConnClose w)"
    by (simp add: admits_nothing_def emit_def)
  from run_stopped [OF this, of evs] show ?thesis
    by (simp add: accept_round_refuse accept_round_admit run_unlimited)
qed

lemma open_gate_ws:
  "path conf \<noteq> [] \<Longrightarrow>
   open_gate conf le w =
     Some (HttpHandling (Conf.maxclient conf), w\<lparr>gate := (gate w)\<lparr>maxclient := Conf.maxclient conf\<rparr>\<rparr>)"
  by (simp add: open_gate_def Let_def)

lemma upgrade_refuse:
  "mc \<noteq> 0 \<Longrightarrow> mc \<le> clinetnum (gate w) \<Longrightarrow> upgrade_handler mc r w = w"
  by (simp add: upgrade_handler_def)

lemma upgrade_handshake_fails:
  "\<not> (mc \<noteq> 0 \<and> mc \<le> clinetnum (gate w)) \<Longrightarrow> handshake r = Some e \<Longrightarrow>
   upgrade_handler mc r w = w\<lparr>gate := (gate w)\<lparr>session := session (gate w) + 1\<rparr>\<rparr>"
  by (auto simp add: upgrade_handler_def nextSession_def newWebsocket_def NewWebsocket_def Let_def)

lemma upgrade_succeeds:
  "\<not> (mc \<noteq> 0 \<and> mc \<le> clinetnum (gate w)) \<Longrightarrow> handshake r = None \<Longrightarrow>
   upgrade_handler mc r w =
     w\<lparr>gate := (gate w)\<lparr>session := session (gate w) + 1,
                          sessions := (sessions (gate w))(session (gate w) + 1 \<mapsto> WsPtr (nalloc w)),
                          clinetnum := clinetnum (gate w) + 1\<rparr>,
       ws := (ws w)(nalloc w := \<lparr>ws_session = session (gate w) + 1, sent = [],
                                 send_faults = req_send_faults r, close_calls = [], started = True\<rparr>),
       nalloc := nalloc w + 1,
       trace := trace w @ [Lock, Unlock, StartCall (nalloc w)]\<rparr>"
  by (auto simp add: upgrade_handler_def nextSession_def newWebsocket_def NewWebsocket_def Let_def
      alloc_ws_def addBackend_def emit_def Websocket_Start_def)

text \<open>
  C8. An upgrade request that comes while the limit is not 0 and \<^verbatim>\<open>clinetnum\<close> has
  reached it leaves the world as it is: no session id, no object, nothing in the
  trace. When the handshake of a request fails, the id taken for it is lost: only
  the counter of the ids has moved, the registry, \<^verbatim>\<open>clinetnum\<close>, the objects and the
  trace are as before.
\<close>

theorem upgrade_refused_or_discarded:
  "(mc \<noteq> 0 \<and> mc \<le> clinetnum (gate w) \<longrightarrow> upgrade_handler mc r w = w) \<and>
   (\<not> (mc \<noteq> 0 \<and> mc \<le> clinetnum (gate w)) \<and> handshake r = Some e \<longrightarrow>
      upgrade_handler mc r w = w\<lparr>gate := (gate w)\<lparr>session := session (gate w) + 1\<rparr>\<rparr>)"
  by (simp add: upgrade_refuse upgrade_handshake_fails)

lemma gate_one_client:
  "gate one_client = \<lparr>session = 1, clinetnum = 1, maxclient = 1, sessions = [1 \<mapsto> TcpPtr 0]\<rparr>"
  by (simp add: one_client_def tcp_conf_def NewConf_def open_gate_tcp accept_round_admit
      world0_def New_def)

lemma gate_one_websocket:
  "gate one_websocket = \<lparr>session = 1, clinetnum = 1, maxclient = 1, sessions = [1 \<mapsto> WsPtr 0]\<rparr>"
  by (simp add: one_websocket_def ws_conf_def NewConf_def open_gate_ws upgrade_succeeds
      world0_def New_def good_request_def)

theorem accept_loop_stops_for_good_witness:
  "(1::u32) \<noteq> 0 \<and> 1 \<le> clinetnum (gate one_client) \<and>
   step (TcpAccepting 1, one_client) (Arrives (Accepted conn_a)) =
     (TcpStopped, emit RefusedConnClose one_client) \<and>
   admits_nothing one_client
     (run (step (TcpAccepting 1, one_client) (Arrives (Accepted conn_a)))
        [KickCall 1, Arrives (Accepted conn_a)]) \<and>
   gate (snd (run (step (TcpAccepting 1, one_client) (Arrives (Accepted conn_a)))
        [KickCall 1, Arrives (Accepted conn_a)])) =
     \<lparr>session = 1, clinetnum = 0, maxclient = 1, sessions = Map.empty\<rparr> \<and>
   fst (step (TcpAccepting 0, one_client) (Arrives (Accepted conn_a))) = TcpAccepting 0 \<and>
   sessions (gate (snd (step (TcpAccepting 0, one_client) (Arrives (Accepted conn_a))))) 2 =
     Some (TcpPtr (nalloc one_client))"
proof -
  have c: "(1::u32) \<noteq> 0 \<and> 1 \<le> clinetnum (gate one_client)"
    by (simp add: gate_one_client)
  note t = accept_loop_stops_for_good [of 1 one_client conn_a "[KickCall 1, Arrives (Accepted conn_a)]"]
  from t c have s: "step (TcpAccepting 1, one_client) (Arrives (Accepted conn_a)) =
     (TcpStopped, emit RefusedConnClose one_client)" by blast
  from t c have a: "admits_nothing one_client
     (run (step (TcpAccepting 1, one_client) (Arrives (Accepted conn_a)))
        [KickCall 1, Arrives (Accepted conn_a)])" by blast
  from t have u: "step (TcpAccepting 0, one_client) (Arrives (Accepted conn_a)) =
     (TcpAccepting 0,
      one_client\<lparr>gate := (gate one_client)\<lparr>clinetnum := clinetnum (gate one_client) + 1,
                           session := session (gate one_client) + 1,
                           sessions := (sessions (gate one_client))(session (gate one_client) + 1 \<mapsto> TcpPtr (nalloc one_client))\<rparr>,
        tcp := (tcp one_client)(nalloc one_client := newTcpBackend (session (gate one_client) + 1) conn_a),
        nalloc := nalloc one_client + 1,
        trace := trace one_client @ [GoServe (nalloc one_client)]\<rparr>)" by blast
  have m: "[1 \<mapsto> TcpPtr 0](1 := None) = (Map.empty :: u32 \<rightharpoonup> Backend)"
    by (rule ext) simp
  have g: "gate (snd (run (TcpStopped, emit RefusedConnClose one_client)
        [KickCall 1, Arrives (Accepted conn_a)])) =
     \<lparr>session = 1, clinetnum = 0, maxclient = 1, sessions = Map.empty\<rparr>"
    by (simp add: run_def kick_present [where b = "TcpPtr 0"] emit_def gate_one_client m)
  from c s a g u show ?thesis
    by (simp add: gate_one_client)
qed

theorem upgrade_refused_or_discarded_witness:
  "(1::u32) \<noteq> 0 \<and> 1 \<le> clinetnum (gate one_websocket) \<and>
   upgrade_handler 1 good_request one_websocket = one_websocket \<and>
   \<not> ((1::u32) \<noteq> 0 \<and> 1 \<le> clinetnum (gate world0)) \<and>
   handshake bad_request = Some OtherError \<and>
   upgrade_handler 1 bad_request world0 = world0\<lparr>gate := New\<lparr>session := 1\<rparr>\<rparr>"
proof -
  have c: "(1::u32) \<noteq> 0 \<and> 1 \<le> clinetnum (gate one_websocket)"
    by (simp add: gate_one_websocket)
  have d: "\<not> ((1::u32) \<noteq> 0 \<and> 1 \<le> clinetnum (gate world0)) \<and>
           handshake bad_request = Some OtherError"
    by (simp add: world0_def New_def bad_request_def)
  from c upgrade_refused_or_discarded [of 1 one_websocket good_request]
  have r: "upgrade_handler 1 good_request one_websocket = one_websocket" by blast
  from d upgrade_refused_or_discarded [of 1 world0 bad_request OtherError]
  have "upgrade_handler 1 bad_request world0 =
        world0\<lparr>gate := (gate world0)\<lparr>session := session (gate world0) + 1\<rparr>\<rparr>" by blast
  then have f: "upgrade_handler 1 bad_request world0 = world0\<lparr>gate := New\<lparr>session := 1\<rparr>\<rparr>"
    by (simp add: world0_def New_def)
  from c d r f show ?thesis by blast
qed

subsection \<open>Writes that overlap\<close>

lemma TcpBackend_Write_run_ops: "TcpBackend_Write t data = run_ops (Write_ops data) t"
  by (simp add: TcpBackend_Write_def Write_ops_def Let_def
      split: prod.splits option.splits)

lemma interleave_first_done: "interleave (replicate n First @ sch) [] b t = interleave sch [] b t"
  by (induction n) simp_all

lemma interleave_first_only:
  "interleave (replicate (length a) First @ sch) a b t = interleave sch [] b (snd (run_ops a t))"
proof (induction a arbitrary: t)
  case Nil
  show ?case by simp
next
  case (Cons x a)
  show ?case
  proof (cases "brw_do x t")
    case (Pair err t')
    show ?thesis
    proof (cases err)
      case None
      with Pair Cons.IH [of t'] show ?thesis by simp
    next
      case (Some e)
      with Pair interleave_first_done [of "length a" sch b t'] show ?thesis by simp
    qed
  qed
qed

lemma interleave_second_done: "interleave (replicate n Second) [] [] t = t"
  by (induction n) simp_all

lemma interleave_second_only:
  "interleave (replicate (length b) Second) [] b t = snd (run_ops b t)"
proof (induction b arbitrary: t)
  case Nil
  show ?case by simp
next
  case (Cons y b)
  show ?case
  proof (cases "brw_do y t")
    case (Pair err t')
    show ?thesis
    proof (cases err)
      case None
      with Pair Cons.IH [of t'] show ?thesis by simp
    next
      case (Some e)
      with Pair interleave_second_done [of "length b" t'] show ?thesis by simp
    qed
  qed
qed

lemma writes_succeed_drop:
  "writes_succeed (m + n) t \<Longrightarrow> writes_succeed n (t\<lparr>wfaults := drop m (wfaults t), wire := x, wbuf := y\<rparr>)"
  by (simp add: writes_succeed_def take_add)

lemma TcpBackend_Write_twice:
  assumes "writes_succeed 6 t"
  shows "TcpBackend_Write t d1 =
           (None, t\<lparr>wfaults := drop 3 (wfaults t),
                    wire := wire t @ wbuf t @ [of_nat (length d1 div 256), of_nat (length d1)] @ d1,
                    wbuf := []\<rparr>)"
    and "TcpBackend_Write (snd (TcpBackend_Write t d1)) d2 =
           (None, t\<lparr>wfaults := drop 6 (wfaults t),
                    wire := wire t @ wbuf t @ [of_nat (length d1 div 256), of_nat (length d1)] @ d1 @
                            [of_nat (length d2 div 256), of_nat (length d2)] @ d2,
                    wbuf := []\<rparr>)"
proof -
  have 3: "writes_succeed 3 t" using assms by (simp add: writes_succeed_def take_add [of 3 3, simplified])
  show 1: "TcpBackend_Write t d1 =
           (None, t\<lparr>wfaults := drop 3 (wfaults t),
                    wire := wire t @ wbuf t @ [of_nat (length d1 div 256), of_nat (length d1)] @ d1,
                    wbuf := []\<rparr>)"
    using 3 by (simp add: TcpBackend_Write_ok PutUint16_of_nat)
  have "writes_succeed (3 + 3) t" using assms by simp
  from writes_succeed_drop [OF this]
  show "TcpBackend_Write (snd (TcpBackend_Write t d1)) d2 =
           (None, t\<lparr>wfaults := drop 6 (wfaults t),
                    wire := wire t @ wbuf t @ [of_nat (length d1 div 256), of_nat (length d1)] @ d1 @
                            [of_nat (length d2 div 256), of_nat (length d2)] @ d2,
                    wbuf := []\<rparr>)"
    by (simp add: 1 TcpBackend_Write_ok PutUint16_of_nat)
qed

lemma interleave_serial:
  "interleave [First, First, First, Second, Second, Second] (Write_ops d1) (Write_ops d2) t =
   snd (TcpBackend_Write (snd (TcpBackend_Write t d1)) d2)"
proof -
  have l: "length (Write_ops d) = 3" for d by (simp add: Write_ops_def)
  have "[First, First, First, Second, Second, Second] =
        replicate (length (Write_ops d1)) First @ replicate (length (Write_ops d2)) Second"
    by (simp add: l numeral_3_eq_3)
  then show ?thesis
    by (simp only: interleave_first_only interleave_second_only TcpBackend_Write_run_ops)
qed

text \<open>
  C3, as the code has it. \<^verbatim>\<open>Write\<close> takes no lock. Two calls of which the second begins
  when the first has returned put their frames on the wire whole and in the order
  of the calls (the network permitting); that is the schedule in which the first
  caller makes its three steps before the second makes any.
\<close>

theorem sequential_writes_in_order:
  assumes "writes_succeed 6 t"
  shows "fst (TcpBackend_Write t d1) = None \<and>
         fst (TcpBackend_Write (snd (TcpBackend_Write t d1)) d2) = None \<and>
         wire (snd (TcpBackend_Write (snd (TcpBackend_Write t d1)) d2)) =
           wire t @ wbuf t @ ([of_nat (length d1 div 256), of_nat (length d1)] @ d1) @
           ([of_nat (length d2 div 256), of_nat (length d2)] @ d2) \<and>
         interleave [First, First, First, Second, Second, Second] (Write_ops d1) (Write_ops d2) t =
           snd (TcpBackend_Write (snd (TcpBackend_Write t d1)) d2)"
  using TcpBackend_Write_twice [OF assms]
  by (simp add: interleave_serial)

theorem sequential_writes_in_order_witness:
  "writes_succeed 6 fresh_backend \<and>
   wire (snd (TcpBackend_Write (snd (TcpBackend_Write fresh_backend [1])) [2, 3])) =
     [0, 1, 1, 0, 2, 2, 3] \<and>
   wire (interleave [First, First, First, Second, Second, Second]
           (Write_ops [1]) (Write_ops [2, 3]) fresh_backend) = [0, 1, 1, 0, 2, 2, 3]"
proof -
  have a: "writes_succeed 6 fresh_backend"
    by (simp add: writes_succeed_def fresh_backend_def newTcpBackend_def)
  have b: "wire fresh_backend = []" "wbuf fresh_backend = []"
    by (simp_all add: fresh_backend_def newTcpBackend_def)
  from sequential_writes_in_order [OF a, where ?d1.0 = "[1]" and ?d2.0 = "[2, 3]"] a b
  show ?thesis by simp
qed

lemma make_2: "replicate 2 (0::byte) = [0, 0]"
  by (simp add: numeral_2_eq_2)

text \<open>
  C3 as the spec states it fails: nothing serializes two callers. Under the schedule
  that lets them take turns, the peer receives the two headers, then the two
  payloads: neither the frames in the one order nor in the other.
\<close>

theorem concurrent_writes_interleave:
  "wire (interleave [First, Second, First, Second, First, Second]
           (Write_ops [1]) (Write_ops [2, 3]) fresh_backend) = [0, 1, 0, 2, 1, 2, 3] \<and>
   wire (snd (TcpBackend_Write (snd (TcpBackend_Write fresh_backend [1])) [2, 3])) =
     [0, 1, 1, 0, 2, 2, 3] \<and>
   wire (snd (TcpBackend_Write (snd (TcpBackend_Write fresh_backend [2, 3])) [1])) =
     [0, 2, 2, 3, 0, 1, 1]"
  by (simp add: Write_ops_def TcpBackend_Write_def brw_Write_def brw_Flush_def next_fault_def
      fresh_backend_def newTcpBackend_def PutUint16_def Let_def make_2)

end
